theory Spec2Isabelle
  imports Main "HOL-Library.List_Lexorder" "HOL-Library.Char_ord"
begin

section \<open>Data model (src/types/novel.ts)\<close>

text \<open>
  The interfaces of \<^verbatim>\<open>src/types/novel.ts\<close> as records. The field \<^verbatim>\<open>id\<close> is written
  \<open>id'\<close> (the name \<open>id\<close> is the identity function of HOL). Optional fields
  (\<^verbatim>\<open>author?\<close>, \<^verbatim>\<open>coverImage?\<close>) are options. Timestamps are the integers that
  \<^verbatim>\<open>Date.now()\<close> returns. Records of different interfaces share field names, so
  selectors are written qualified (\<open>novel.updatedAt\<close>, \<open>character.images\<close>).
\<close>

datatype characterTag = Mc | Villain | Ally | Mentor | LoveInterest | Side | Custom

record novel =
  id' :: string
  title :: string
  author :: "string option"
  coverImage :: "string option"
  createdAt :: int
  updatedAt :: int

record character =
  id' :: string
  novelId :: string
  name :: string
  description :: string
  images :: "string list"
  tags :: "characterTag list"
  linkedCharacterIds :: "string list"
  linkedPlaceIds :: "string list"
  createdAt :: int
  updatedAt :: int

record place =
  id' :: string
  novelId :: string
  name :: string
  description :: string
  images :: "string list"
  linkedCharacterIds :: "string list"
  createdAt :: int
  updatedAt :: int

record "note" =
  id' :: string
  novelId :: string
  title :: string
  content :: string
  linkedCharacterIds :: "string list"
  linkedPlaceIds :: "string list"
  createdAt :: int
  updatedAt :: int

text \<open>The value type of the \<^verbatim>\<open>images\<close> object store: \<^verbatim>\<open>{ id: string; data: string }\<close>.\<close>

record image =
  id' :: string
  data :: string

text \<open>
  \<^verbatim>\<open>ExportData\<close>. The document that reaches \<^verbatim>\<open>importAll\<close> is the result of
  \<^verbatim>\<open>JSON.parse\<close> and may lack any field, so every field is an option (\<open>None\<close>: the
  key is missing). The \<^verbatim>\<open>images\<close> object is its list of entries (key, value), in the
  order \<^verbatim>\<open>Object.entries\<close> enumerates them.
\<close>

record exportData =
  version :: "string option"
  exportedAt :: "int option"
  novels :: "novel list option"
  characters :: "character list option"
  places :: "place list option"
  "notes" :: "note list option"
  images :: "(string \<times> string) list option"

section \<open>The storage engine (IndexedDB through the idb wrapper)\<close>

text \<open>
  The idb library and the browser's IndexedDB are not code of the repository: this
  section states what the code relies on. The calls of the repository are taken one
  at a time (no request of another call comes between the requests of a call), and
  the storage engine does not fail.

  An object store with \<^verbatim>\<open>keyPath: 'id'\<close> holds at most one record per key and
  enumerates its records in ascending key order. It is modelled as the list of its
  records in that order; \<open>key\<close> is the selector of the key path. Keys are strings,
  compared character by character (the lexicographic order on \<^typ>\<open>string\<close>).
\<close>

definition store_get :: "('a \<Rightarrow> string) \<Rightarrow> string \<Rightarrow> 'a list \<Rightarrow> 'a option" where
  "store_get key k xs = find (\<lambda>r. key r = k) xs"

fun store_put :: "('a \<Rightarrow> string) \<Rightarrow> 'a \<Rightarrow> 'a list \<Rightarrow> 'a list" where
  "store_put key r [] = [r]"
| "store_put key r (x # xs) =
     (if key r < key x then r # x # xs
      else if key r = key x then r # xs
      else x # store_put key r xs)"

definition store_delete :: "('a \<Rightarrow> string) \<Rightarrow> string \<Rightarrow> 'a list \<Rightarrow> 'a list" where
  "store_delete key k xs = filter (\<lambda>r. key r \<noteq> k) xs"

text \<open>A well-formed store: strictly ascending keys (so no key occurs twice).\<close>

definition store_wf :: "('a \<Rightarrow> string) \<Rightarrow> 'a list \<Rightarrow> bool" where
  "store_wf key xs = sorted_wrt (<) (map key xs)"

text \<open>The five object stores that \<^verbatim>\<open>getDB\<close> creates.\<close>

record novelCompanionDB =
  novels :: "novel list"
  characters :: "character list"
  places :: "place list"
  "notes" :: "note list"
  images :: "image list"

definition emptyDB :: novelCompanionDB where
  "emptyDB = \<lparr>novelCompanionDB.novels = [], characters = [], places = [], notes = [], images = []\<rparr>"

definition db_wf :: "novelCompanionDB \<Rightarrow> bool" where
  "db_wf d \<longleftrightarrow>
     store_wf novel.id' (novelCompanionDB.novels d) \<and>
     store_wf character.id' (novelCompanionDB.characters d) \<and>
     store_wf place.id' (novelCompanionDB.places d) \<and>
     store_wf note.id' (novelCompanionDB.notes d) \<and>
     store_wf image.id' (novelCompanionDB.images d)"

datatype storeName = Novels | Characters | Places | Notes | Images

datatype indexName = ByNovel | ByUpdated

datatype txMode = Readonly | Readwrite

text \<open>The requests the code sends to an object store.\<close>

datatype request =
    Get storeName string
  | GetAll storeName
  | GetAllFromIndex storeName indexName "string option"
  | PutNovel novel
  | PutCharacter character
  | PutPlace place
  | PutNote "note"
  | PutImage image
  | Delete storeName string
  | Clear storeName

fun perform :: "request \<Rightarrow> novelCompanionDB \<Rightarrow> novelCompanionDB" where
  "perform (Get sn k) d = d"
| "perform (GetAll sn) d = d"
| "perform (GetAllFromIndex sn ix q) d = d"
| "perform (PutNovel r) d =
     d\<lparr>novelCompanionDB.novels := store_put novel.id' r (novelCompanionDB.novels d)\<rparr>"
| "perform (PutCharacter r) d =
     d\<lparr>novelCompanionDB.characters := store_put character.id' r (novelCompanionDB.characters d)\<rparr>"
| "perform (PutPlace r) d =
     d\<lparr>novelCompanionDB.places := store_put place.id' r (novelCompanionDB.places d)\<rparr>"
| "perform (PutNote r) d =
     d\<lparr>novelCompanionDB.notes := store_put note.id' r (novelCompanionDB.notes d)\<rparr>"
| "perform (PutImage r) d =
     d\<lparr>novelCompanionDB.images := store_put image.id' r (novelCompanionDB.images d)\<rparr>"
| "perform (Delete Novels k) d =
     d\<lparr>novelCompanionDB.novels := store_delete novel.id' k (novelCompanionDB.novels d)\<rparr>"
| "perform (Delete Characters k) d =
     d\<lparr>novelCompanionDB.characters := store_delete character.id' k (novelCompanionDB.characters d)\<rparr>"
| "perform (Delete Places k) d =
     d\<lparr>novelCompanionDB.places := store_delete place.id' k (novelCompanionDB.places d)\<rparr>"
| "perform (Delete Notes k) d =
     d\<lparr>novelCompanionDB.notes := store_delete note.id' k (novelCompanionDB.notes d)\<rparr>"
| "perform (Delete Images k) d =
     d\<lparr>novelCompanionDB.images := store_delete image.id' k (novelCompanionDB.images d)\<rparr>"
| "perform (Clear Novels) d = d\<lparr>novelCompanionDB.novels := []\<rparr>"
| "perform (Clear Characters) d = d\<lparr>novelCompanionDB.characters := []\<rparr>"
| "perform (Clear Places) d = d\<lparr>novelCompanionDB.places := []\<rparr>"
| "perform (Clear Notes) d = d\<lparr>novelCompanionDB.notes := []\<rparr>"
| "perform (Clear Images) d = d\<lparr>novelCompanionDB.images := []\<rparr>"

text \<open>
  A transaction: the stores it spans, its mode and the requests made inside it, in
  order. The connection is the database together with the log of the transactions
  run on it so far. \<open>transact\<close> runs the requests of one transaction in order and logs
  it; a read-only transaction leaves the database as it is. Every shortcut of idb on the database itself (\<^verbatim>\<open>db.get\<close>, \<^verbatim>\<open>db.getAll\<close>,
  \<^verbatim>\<open>db.getAllFromIndex\<close>, \<^verbatim>\<open>db.put\<close>, \<^verbatim>\<open>db.delete\<close>, \<^verbatim>\<open>db.clear\<close>) opens a
  transaction of its own on the one store, with the one request.
\<close>

record transaction =
  tx_stores :: "storeName list"
  tx_mode :: txMode
  tx_requests :: "request list"

record conn =
  db :: novelCompanionDB
  txlog :: "transaction list"

definition transact :: "storeName list \<Rightarrow> txMode \<Rightarrow> request list \<Rightarrow> conn \<Rightarrow> conn" where
  "transact sns m reqs s =
     \<lparr>db = (case m of Readwrite \<Rightarrow> fold perform reqs (db s) | Readonly \<Rightarrow> db s),
      txlog = txlog s @ [\<lparr>tx_stores = sns, tx_mode = m, tx_requests = reqs\<rparr>]\<rparr>"

fun storeOf :: "request \<Rightarrow> storeName" where
  "storeOf (Get sn k) = sn"
| "storeOf (GetAll sn) = sn"
| "storeOf (GetAllFromIndex sn ix q) = sn"
| "storeOf (PutNovel r) = Novels"
| "storeOf (PutCharacter r) = Characters"
| "storeOf (PutPlace r) = Places"
| "storeOf (PutNote r) = Notes"
| "storeOf (PutImage r) = Images"
| "storeOf (Delete sn k) = sn"
| "storeOf (Clear sn) = sn"

definition db_read :: "request \<Rightarrow> conn \<Rightarrow> conn" where
  "db_read rq s = transact [storeOf rq] Readonly [rq] s"

definition db_write :: "request \<Rightarrow> conn \<Rightarrow> conn" where
  "db_write rq s = transact [storeOf rq] Readwrite [rq] s"

text \<open>
  What the index reads return. The index \<^verbatim>\<open>by-novel\<close> (key path \<^verbatim>\<open>novelId\<close>), queried
  with a novel id, gives the records of that novel in ascending primary key (the
  order of the store). The index \<^verbatim>\<open>by-updated\<close> (key path \<^verbatim>\<open>updatedAt\<close>), read whole,
  gives all records in ascending \<^verbatim>\<open>updatedAt\<close>, records with equal \<^verbatim>\<open>updatedAt\<close> in
  ascending primary key (the sort is stable).
\<close>

definition index_by_novel :: "('a \<Rightarrow> string) \<Rightarrow> string \<Rightarrow> 'a list \<Rightarrow> 'a list" where
  "index_by_novel nid q xs = filter (\<lambda>r. nid r = q) xs"

definition index_by_updated :: "('a \<Rightarrow> int) \<Rightarrow> 'a list \<Rightarrow> 'a list" where
  "index_by_updated upd xs = sort_key upd xs"

definition db_get_novel :: "string \<Rightarrow> conn \<Rightarrow> novel option \<times> conn" where
  "db_get_novel k s =
     (store_get novel.id' k (novelCompanionDB.novels (db s)), db_read (Get Novels k) s)"

definition db_get_character :: "string \<Rightarrow> conn \<Rightarrow> character option \<times> conn" where
  "db_get_character k s =
     (store_get character.id' k (novelCompanionDB.characters (db s)), db_read (Get Characters k) s)"

definition db_get_place :: "string \<Rightarrow> conn \<Rightarrow> place option \<times> conn" where
  "db_get_place k s =
     (store_get place.id' k (novelCompanionDB.places (db s)), db_read (Get Places k) s)"

definition db_get_note :: "string \<Rightarrow> conn \<Rightarrow> note option \<times> conn" where
  "db_get_note k s =
     (store_get note.id' k (novelCompanionDB.notes (db s)), db_read (Get Notes k) s)"

definition db_get_image :: "string \<Rightarrow> conn \<Rightarrow> image option \<times> conn" where
  "db_get_image k s =
     (store_get image.id' k (novelCompanionDB.images (db s)), db_read (Get Images k) s)"

definition db_getAll_novels :: "conn \<Rightarrow> novel list \<times> conn" where
  "db_getAll_novels s = (novelCompanionDB.novels (db s), db_read (GetAll Novels) s)"

definition db_getAll_characters :: "conn \<Rightarrow> character list \<times> conn" where
  "db_getAll_characters s = (novelCompanionDB.characters (db s), db_read (GetAll Characters) s)"

definition db_getAll_places :: "conn \<Rightarrow> place list \<times> conn" where
  "db_getAll_places s = (novelCompanionDB.places (db s), db_read (GetAll Places) s)"

definition db_getAll_notes :: "conn \<Rightarrow> note list \<times> conn" where
  "db_getAll_notes s = (novelCompanionDB.notes (db s), db_read (GetAll Notes) s)"

definition db_novels_by_updated :: "conn \<Rightarrow> novel list \<times> conn" where
  "db_novels_by_updated s =
     (index_by_updated novel.updatedAt (novelCompanionDB.novels (db s)),
      db_read (GetAllFromIndex Novels ByUpdated None) s)"

definition db_characters_by_novel :: "string \<Rightarrow> conn \<Rightarrow> character list \<times> conn" where
  "db_characters_by_novel q s =
     (index_by_novel character.novelId q (novelCompanionDB.characters (db s)),
      db_read (GetAllFromIndex Characters ByNovel (Some q)) s)"

definition db_places_by_novel :: "string \<Rightarrow> conn \<Rightarrow> place list \<times> conn" where
  "db_places_by_novel q s =
     (index_by_novel place.novelId q (novelCompanionDB.places (db s)),
      db_read (GetAllFromIndex Places ByNovel (Some q)) s)"

definition db_notes_by_novel :: "string \<Rightarrow> conn \<Rightarrow> note list \<times> conn" where
  "db_notes_by_novel q s =
     (index_by_novel note.novelId q (novelCompanionDB.notes (db s)),
      db_read (GetAllFromIndex Notes ByNovel (Some q)) s)"

section \<open>Repositories (src/lib/database.ts)\<close>

text \<open>
  Every operation takes the connection and returns its result with the connection
  after it. \<^verbatim>\<open>generateId()\<close> draws on the clock and on \<^verbatim>\<open>Math.random()\<close>: the id it
  returns is the parameter \<open>gid\<close>. The reading of \<^verbatim>\<open>Date.now()\<close> is the parameter
  \<open>now\<close>.

  \<^verbatim>\<open>Partial<T>\<close> is a record of options: \<open>None\<close> for a key the payload does not have.
  \<open>spread\<close> is one field of \<^verbatim>\<open>{...existing, ...data}\<close>: the payload's value where the
  payload has the key.
\<close>

definition spread :: "'a \<Rightarrow> 'a option \<Rightarrow> 'a" where
  "spread old new = (case new of None \<Rightarrow> old | Some v \<Rightarrow> v)"

record novel_partial =
  id' :: "string option"
  title :: "string option"
  author :: "string option option"
  coverImage :: "string option option"
  createdAt :: "int option"
  updatedAt :: "int option"

record character_partial =
  id' :: "string option"
  novelId :: "string option"
  name :: "string option"
  description :: "string option"
  images :: "string list option"
  tags :: "characterTag list option"
  linkedCharacterIds :: "string list option"
  linkedPlaceIds :: "string list option"
  createdAt :: "int option"
  updatedAt :: "int option"

record place_partial =
  id' :: "string option"
  novelId :: "string option"
  name :: "string option"
  description :: "string option"
  images :: "string list option"
  linkedCharacterIds :: "string list option"
  createdAt :: "int option"
  updatedAt :: "int option"

record note_partial =
  id' :: "string option"
  novelId :: "string option"
  title :: "string option"
  content :: "string option"
  linkedCharacterIds :: "string list option"
  linkedPlaceIds :: "string list option"
  createdAt :: "int option"
  updatedAt :: "int option"

definition novel_spread :: "novel \<Rightarrow> novel_partial \<Rightarrow> novel" where
  "novel_spread e p =
     \<lparr>novel.id' = spread (novel.id' e) (novel_partial.id' p),
      title = spread (novel.title e) (novel_partial.title p),
      author = spread (novel.author e) (novel_partial.author p),
      coverImage = spread (novel.coverImage e) (novel_partial.coverImage p),
      createdAt = spread (novel.createdAt e) (novel_partial.createdAt p),
      updatedAt = spread (novel.updatedAt e) (novel_partial.updatedAt p)\<rparr>"

definition character_spread :: "character \<Rightarrow> character_partial \<Rightarrow> character" where
  "character_spread e p =
     \<lparr>character.id' = spread (character.id' e) (character_partial.id' p),
      novelId = spread (character.novelId e) (character_partial.novelId p),
      name = spread (character.name e) (character_partial.name p),
      description = spread (character.description e) (character_partial.description p),
      images = spread (character.images e) (character_partial.images p),
      tags = spread (character.tags e) (character_partial.tags p),
      linkedCharacterIds =
        spread (character.linkedCharacterIds e) (character_partial.linkedCharacterIds p),
      linkedPlaceIds = spread (character.linkedPlaceIds e) (character_partial.linkedPlaceIds p),
      createdAt = spread (character.createdAt e) (character_partial.createdAt p),
      updatedAt = spread (character.updatedAt e) (character_partial.updatedAt p)\<rparr>"

definition place_spread :: "place \<Rightarrow> place_partial \<Rightarrow> place" where
  "place_spread e p =
     \<lparr>place.id' = spread (place.id' e) (place_partial.id' p),
      novelId = spread (place.novelId e) (place_partial.novelId p),
      name = spread (place.name e) (place_partial.name p),
      description = spread (place.description e) (place_partial.description p),
      images = spread (place.images e) (place_partial.images p),
      linkedCharacterIds = spread (place.linkedCharacterIds e) (place_partial.linkedCharacterIds p),
      createdAt = spread (place.createdAt e) (place_partial.createdAt p),
      updatedAt = spread (place.updatedAt e) (place_partial.updatedAt p)\<rparr>"

definition note_spread :: "note \<Rightarrow> note_partial \<Rightarrow> note" where
  "note_spread e p =
     \<lparr>note.id' = spread (note.id' e) (note_partial.id' p),
      novelId = spread (note.novelId e) (note_partial.novelId p),
      title = spread (note.title e) (note_partial.title p),
      content = spread (note.content e) (note_partial.content p),
      linkedCharacterIds = spread (note.linkedCharacterIds e) (note_partial.linkedCharacterIds p),
      linkedPlaceIds = spread (note.linkedPlaceIds e) (note_partial.linkedPlaceIds p),
      createdAt = spread (note.createdAt e) (note_partial.createdAt p),
      updatedAt = spread (note.updatedAt e) (note_partial.updatedAt p)\<rparr>"

subsection \<open>novelDB\<close>

definition novelDB_getAll :: "conn \<Rightarrow> novel list \<times> conn" where
  "novelDB_getAll s = db_novels_by_updated s"

definition novelDB_get :: "string \<Rightarrow> conn \<Rightarrow> novel option \<times> conn" where
  "novelDB_get i s = db_get_novel i s"

definition novelDB_create :: "novel \<Rightarrow> string \<Rightarrow> int \<Rightarrow> conn \<Rightarrow> novel \<times> conn" where
  "novelDB_create nv gid now s =
     (let newNovel = nv\<lparr>novel.id' := gid, novel.createdAt := now, novel.updatedAt := now\<rparr>
      in (newNovel, db_write (PutNovel newNovel) s))"

definition novelDB_update ::
  "string \<Rightarrow> novel_partial \<Rightarrow> int \<Rightarrow> conn \<Rightarrow> novel option \<times> conn" where
  "novelDB_update i dat now s =
     (let (existing, s1) = db_get_novel i s
      in case existing of
           None \<Rightarrow> (None, s1)
         | Some e \<Rightarrow>
             (let updated = (novel_spread e dat)\<lparr>novel.id' := i, novel.updatedAt := now\<rparr>
              in (Some updated, db_write (PutNovel updated) s1)))"

text \<open>
  \<^verbatim>\<open>novelDB.delete\<close>: three index reads on the database (a transaction each), then
  one read-write transaction over the five stores with every delete request, in the
  order of the loops.
\<close>

definition novelDB_delete :: "string \<Rightarrow> conn \<Rightarrow> conn" where
  "novelDB_delete i s =
     (let (chars, s1) = db_characters_by_novel i s;
          (plcs, s2) = db_places_by_novel i s1;
          (nts, s3) = db_notes_by_novel i s2
      in transact [Novels, Characters, Places, Notes, Images] Readwrite
           (concat (map (\<lambda>c. Delete Characters (character.id' c) #
                               map (Delete Images) (character.images c)) chars) @
            concat (map (\<lambda>p. Delete Places (place.id' p) #
                               map (Delete Images) (place.images p)) plcs) @
            map (\<lambda>n. Delete Notes (note.id' n)) nts @
            [Delete Novels i])
           s3)"

subsection \<open>characterDB\<close>

definition characterDB_getByNovel :: "string \<Rightarrow> conn \<Rightarrow> character list \<times> conn" where
  "characterDB_getByNovel nid s = db_characters_by_novel nid s"

definition characterDB_get :: "string \<Rightarrow> conn \<Rightarrow> character option \<times> conn" where
  "characterDB_get i s = db_get_character i s"

definition characterDB_create ::
  "character \<Rightarrow> string \<Rightarrow> int \<Rightarrow> conn \<Rightarrow> character \<times> conn" where
  "characterDB_create ch gid now s =
     (let newCharacter =
            ch\<lparr>character.id' := gid, character.createdAt := now, character.updatedAt := now\<rparr>
      in (newCharacter, db_write (PutCharacter newCharacter) s))"

definition characterDB_update ::
  "string \<Rightarrow> character_partial \<Rightarrow> int \<Rightarrow> conn \<Rightarrow> character option \<times> conn" where
  "characterDB_update i dat now s =
     (let (existing, s1) = db_get_character i s
      in case existing of
           None \<Rightarrow> (None, s1)
         | Some e \<Rightarrow>
             (let updated =
                    (character_spread e dat)\<lparr>character.id' := i, character.updatedAt := now\<rparr>
              in (Some updated, db_write (PutCharacter updated) s1)))"

text \<open>
  The loop that ends \<^verbatim>\<open>characterDB.delete\<close>. Each record it rewrites reads
  \<^verbatim>\<open>Date.now()\<close> anew: \<open>dateNow n\<close> is the reading for the \<open>n\<close>-th record rewritten
  (counted from \<open>0\<close>).
\<close>

fun removeReferences ::
  "string \<Rightarrow> (nat \<Rightarrow> int) \<Rightarrow> nat \<Rightarrow> character list \<Rightarrow> conn \<Rightarrow> conn" where
  "removeReferences i dateNow n [] s = s"
| "removeReferences i dateNow n (c # cs) s =
     (if i \<in> set (character.linkedCharacterIds c)
      then removeReferences i dateNow (Suc n) cs
             (db_write (PutCharacter
                (c\<lparr>character.linkedCharacterIds :=
                      filter (\<lambda>cid. cid \<noteq> i) (character.linkedCharacterIds c),
                    character.updatedAt := dateNow n\<rparr>)) s)
      else removeReferences i dateNow n cs s)"

definition characterDB_delete :: "string \<Rightarrow> (nat \<Rightarrow> int) \<Rightarrow> conn \<Rightarrow> conn" where
  "characterDB_delete i dateNow s =
     (let (found, s1) = db_get_character i s
      in case found of
           None \<Rightarrow> s1
         | Some ch \<Rightarrow>
             (let s2 = transact [Characters, Images] Readwrite
                         (map (Delete Images) (character.images ch) @ [Delete Characters i]) s1;
                  (allChars, s3) = db_characters_by_novel (character.novelId ch) s2
              in removeReferences i dateNow 0 allChars s3))"

subsection \<open>placeDB\<close>

definition placeDB_getByNovel :: "string \<Rightarrow> conn \<Rightarrow> place list \<times> conn" where
  "placeDB_getByNovel nid s = db_places_by_novel nid s"

definition placeDB_get :: "string \<Rightarrow> conn \<Rightarrow> place option \<times> conn" where
  "placeDB_get i s = db_get_place i s"

definition placeDB_create :: "place \<Rightarrow> string \<Rightarrow> int \<Rightarrow> conn \<Rightarrow> place \<times> conn" where
  "placeDB_create pl gid now s =
     (let newPlace = pl\<lparr>place.id' := gid, place.createdAt := now, place.updatedAt := now\<rparr>
      in (newPlace, db_write (PutPlace newPlace) s))"

definition placeDB_update ::
  "string \<Rightarrow> place_partial \<Rightarrow> int \<Rightarrow> conn \<Rightarrow> place option \<times> conn" where
  "placeDB_update i dat now s =
     (let (existing, s1) = db_get_place i s
      in case existing of
           None \<Rightarrow> (None, s1)
         | Some e \<Rightarrow>
             (let updated = (place_spread e dat)\<lparr>place.id' := i, place.updatedAt := now\<rparr>
              in (Some updated, db_write (PutPlace updated) s1)))"

definition placeDB_delete :: "string \<Rightarrow> conn \<Rightarrow> conn" where
  "placeDB_delete i s =
     (let (found, s1) = db_get_place i s
      in case found of
           None \<Rightarrow> s1
         | Some pl \<Rightarrow>
             transact [Places, Images] Readwrite
               (map (Delete Images) (place.images pl) @ [Delete Places i]) s1)"

subsection \<open>noteDB\<close>

definition noteDB_getByNovel :: "string \<Rightarrow> conn \<Rightarrow> note list \<times> conn" where
  "noteDB_getByNovel nid s = db_notes_by_novel nid s"

definition noteDB_get :: "string \<Rightarrow> conn \<Rightarrow> note option \<times> conn" where
  "noteDB_get i s = db_get_note i s"

definition noteDB_create :: "note \<Rightarrow> string \<Rightarrow> int \<Rightarrow> conn \<Rightarrow> note \<times> conn" where
  "noteDB_create nt gid now s =
     (let newNote = nt\<lparr>note.id' := gid, note.createdAt := now, note.updatedAt := now\<rparr>
      in (newNote, db_write (PutNote newNote) s))"

definition noteDB_update ::
  "string \<Rightarrow> note_partial \<Rightarrow> int \<Rightarrow> conn \<Rightarrow> note option \<times> conn" where
  "noteDB_update i dat now s =
     (let (existing, s1) = db_get_note i s
      in case existing of
           None \<Rightarrow> (None, s1)
         | Some e \<Rightarrow>
             (let updated = (note_spread e dat)\<lparr>note.id' := i, note.updatedAt := now\<rparr>
              in (Some updated, db_write (PutNote updated) s1)))"

definition noteDB_delete :: "string \<Rightarrow> conn \<Rightarrow> conn" where
  "noteDB_delete i s = db_write (Delete Notes i) s"

subsection \<open>imageDB\<close>

text \<open>\<^verbatim>\<open>record?.data\<close>: the data of the record, \<^verbatim>\<open>undefined\<close> when there is none.\<close>

definition imageDB_get :: "string \<Rightarrow> conn \<Rightarrow> string option \<times> conn" where
  "imageDB_get i s = (let (rec, s1) = db_get_image i s in (map_option image.data rec, s1))"

definition imageDB_save :: "string \<Rightarrow> string \<Rightarrow> conn \<Rightarrow> string \<times> conn" where
  "imageDB_save dat gid s = (gid, db_write (PutImage \<lparr>image.id' = gid, data = dat\<rparr>) s)"

definition imageDB_delete :: "string \<Rightarrow> conn \<Rightarrow> conn" where
  "imageDB_delete i s = db_write (Delete Images i) s"

section \<open>Backup codec (dataExport)\<close>

text \<open>
  \<^verbatim>\<open>imageIds\<close> is a \<^verbatim>\<open>Set\<close>: \<open>setAdd\<close> keeps the first insertion of a value, and the
  set is enumerated in insertion order. A string is truthy when it is not empty:
  \<^verbatim>\<open>n.coverImage && imageIds.add(n.coverImage)\<close> adds a cover that is present and not
  \<^verbatim>\<open>""\<close>, and \<^verbatim>\<open>if (data) images[id] = data\<close> keeps an image whose record exists and
  whose data is not \<^verbatim>\<open>""\<close>.
\<close>

definition setAdd :: "string list \<Rightarrow> string \<Rightarrow> string list" where
  "setAdd ids x = (if x \<in> set ids then ids else ids @ [x])"

definition collectImageIds :: "novel list \<Rightarrow> character list \<Rightarrow> place list \<Rightarrow> string list" where
  "collectImageIds ns cs ps =
     (let ids1 = fold (\<lambda>c ids. fold (\<lambda>x ids'. setAdd ids' x) (character.images c) ids) cs [];
          ids2 = fold (\<lambda>p ids. fold (\<lambda>x ids'. setAdd ids' x) (place.images p) ids) ps ids1
      in fold (\<lambda>n ids. case novel.coverImage n of
                           None \<Rightarrow> ids
                         | Some x \<Rightarrow> if x \<noteq> [] then setAdd ids x else ids) ns ids2)"

text \<open>
  \<^verbatim>\<open>images\<close> is a plain object, \<^verbatim>\<open>{}\<close>, used as a map from ids to strings. It is
  modelled as the list of its own properties (key, value) in the order in which
  \<^verbatim>\<open>Object.entries\<close> enumerates them: the keys that are array indices (the decimal
  numerals of the integers from \<open>0\<close> to \<open>2^32 - 2\<close>, without leading zeros) in ascending
  numeric order, then the other keys in the order of their creation.

  \<open>objectSet\<close> is the assignment \<^verbatim>\<open>images[k] = v\<close> of a string \<open>v\<close>. The key
  \<^verbatim>\<open>__proto__\<close> is the accessor that the object inherits from \<^verbatim>\<open>Object.prototype\<close>:
  its setter ignores a value that is neither an object nor \<^verbatim>\<open>null\<close>, so the
  assignment adds no property. For any other key the assignment replaces the value
  of the property when the object has it, and creates the property otherwise.
\<close>

definition isDigit :: "char \<Rightarrow> bool" where
  "isDigit c = (c \<in> set ''0123456789'')"

definition indexValue :: "string \<Rightarrow> nat" where
  "indexValue k = foldl (\<lambda>n c. 10 * n + (of_char c - 48)) 0 k"

definition isArrayIndex :: "string \<Rightarrow> bool" where
  "isArrayIndex k =
     (case k of
        [] \<Rightarrow> False
      | c # cs \<Rightarrow> list_all isDigit k \<and> (c \<noteq> CHR ''0'' \<or> cs = []) \<and> indexValue k < 4294967295)"

fun insertIndexKey :: "string \<Rightarrow> string \<Rightarrow> (string \<times> string) list \<Rightarrow> (string \<times> string) list" where
  "insertIndexKey k v [] = [(k, v)]"
| "insertIndexKey k v (p # obj) =
     (if isArrayIndex (fst p) \<and> indexValue (fst p) < indexValue k
      then p # insertIndexKey k v obj
      else (k, v) # p # obj)"

definition objectSet :: "(string \<times> string) list \<Rightarrow> string \<Rightarrow> string \<Rightarrow> (string \<times> string) list" where
  "objectSet obj k v =
     (if k = ''__proto__'' then obj
      else if k \<in> set (map fst obj) then map (\<lambda>p. if fst p = k then (k, v) else p) obj
      else if isArrayIndex k then insertIndexKey k v obj
      else obj @ [(k, v)])"

fun fetchImages :: "string list \<Rightarrow> (string \<times> string) list \<Rightarrow> conn \<Rightarrow>
    (string \<times> string) list \<times> conn" where
  "fetchImages [] imgs s = (imgs, s)"
| "fetchImages (i # ids) imgs s =
     (let (dat, s1) = imageDB_get i s
      in case dat of
           None \<Rightarrow> fetchImages ids imgs s1
         | Some x \<Rightarrow> if x \<noteq> [] then fetchImages ids (objectSet imgs i x) s1
                     else fetchImages ids imgs s1)"

definition exportAll :: "int \<Rightarrow> conn \<Rightarrow> exportData \<times> conn" where
  "exportAll now s =
     (let (ns, s1) = db_getAll_novels s;
          (cs, s2) = db_getAll_characters s1;
          (ps, s3) = db_getAll_places s2;
          (nts, s4) = db_getAll_notes s3;
          imageIds = collectImageIds ns cs ps;
          (imgs, s5) = fetchImages imageIds [] s4
      in (\<lparr>version = Some ''1.0'', exportedAt = Some now, novels = Some ns,
           characters = Some cs, places = Some ps, notes = Some nts, images = Some imgs\<rparr>, s5))"

datatype importMode = Overwrite | Merge

text \<open>
  What a call can raise: the \<^verbatim>\<open>TypeError\<close> of JavaScript (\<^verbatim>\<open>Object.entries\<close> of
  \<^verbatim>\<open>undefined\<close>, \<^verbatim>\<open>for ... of\<close> over \<^verbatim>\<open>undefined\<close>) and \<^verbatim>\<open>new Error(message)\<close>.
  Nothing in \<^verbatim>\<open>importAll\<close> opens a transaction over several requests, so a call that
  raises leaves the connection as the requests before the raise made it: the result
  is the outcome together with that connection.
\<close>

datatype error = TypeError | Error string

definition importAll :: "exportData \<Rightarrow> importMode \<Rightarrow> conn \<Rightarrow> (error + unit) \<times> conn" where
  "importAll dat mode s =
     (let s0 = (if mode = Overwrite
                then db_write (Clear Images) (db_write (Clear Notes) (db_write (Clear Places)
                       (db_write (Clear Characters) (db_write (Clear Novels) s))))
                else s)
      in case exportData.images dat of
           None \<Rightarrow> (Inl TypeError, s0)
         | Some imgs \<Rightarrow>
      (let s1 = fold (\<lambda>(i, dataStr). db_write (PutImage \<lparr>image.id' = i, data = dataStr\<rparr>)) imgs s0
      in case exportData.novels dat of
           None \<Rightarrow> (Inl TypeError, s1)
         | Some ns \<Rightarrow>
      (let s2 = fold (\<lambda>n. db_write (PutNovel n)) ns s1
      in case exportData.characters dat of
           None \<Rightarrow> (Inl TypeError, s2)
         | Some cs \<Rightarrow>
      (let s3 = fold (\<lambda>c. db_write (PutCharacter c)) cs s2
      in case exportData.places dat of
           None \<Rightarrow> (Inl TypeError, s3)
         | Some ps \<Rightarrow>
      (let s4 = fold (\<lambda>p. db_write (PutPlace p)) ps s3
      in case exportData.notes dat of
           None \<Rightarrow> (Inl TypeError, s4)
         | Some nts \<Rightarrow> (Inr (), fold (\<lambda>n. db_write (PutNote n)) nts s4))))))"

section \<open>The caller of importAll (src/components/ExportImportDialog.tsx)\<close>

text \<open>
  \<^verbatim>\<open>handleImport\<close> from the parsed document on: the check of \<^verbatim>\<open>version\<close> and
  \<^verbatim>\<open>novels\<close>, the call of \<^verbatim>\<open>importAll\<close> in overwrite mode, and the \<^verbatim>\<open>catch\<close> that
  turns whatever was raised into the error toast. \<^verbatim>\<open>!data.version\<close> holds for a
  missing or empty version, \<^verbatim>\<open>!data.novels\<close> for a missing array (an empty array
  is truthy).
\<close>

datatype toast = ToastSuccess string | ToastError string

definition truthy :: "string option \<Rightarrow> bool" where
  "truthy v = (case v of None \<Rightarrow> False | Some x \<Rightarrow> x \<noteq> [])"

definition handleImport :: "exportData \<Rightarrow> conn \<Rightarrow> toast \<times> conn" where
  "handleImport dat s =
     (let (r, s1) = (if \<not> truthy (exportData.version dat) \<or> exportData.novels dat = None
                     then (Inl (Error ''Invalid backup file''), s)
                     else importAll dat Overwrite s)
      in case r of
           Inl e \<Rightarrow> (ToastError ''Failed to import backup. Invalid file format.'', s1)
         | Inr u \<Rightarrow> (ToastSuccess ''Backup imported! Refreshing...'', s1))"

section \<open>A concrete database\<close>

text \<open>
  Two novels. The first has two characters (Leto links to Paul), a place and a note
  that both link to Paul, and its cover is the image \<open>i3\<close>. Paul was edited last
  (\<open>updatedAt = 9\<close>). Paul's second image \<open>i4\<close> was saved with empty data, Leto's only
  image \<open>i9\<close> is no longer in the store, and no record refers to the image \<open>i5\<close>.
  A character of the second novel links to Paul as well.
\<close>

definition dune :: novel where
  "dune = \<lparr>novel.id' = ''n1'', title = ''Dune'', author = None, coverImage = Some ''i3'',
            createdAt = 1, updatedAt = 1\<rparr>"

definition emma :: novel where
  "emma = \<lparr>novel.id' = ''n2'', title = ''Emma'', author = Some ''Austen'', coverImage = None,
            createdAt = 4, updatedAt = 4\<rparr>"

definition paul :: character where
  "paul = \<lparr>character.id' = ''c1'', novelId = ''n1'', name = ''Paul'', description = [],
            images = [''i1'', ''i4''], tags = [Mc], linkedCharacterIds = [], linkedPlaceIds = [],
            createdAt = 2, updatedAt = 9\<rparr>"

definition leto :: character where
  "leto = \<lparr>character.id' = ''c2'', novelId = ''n1'', name = ''Leto'', description = [],
            images = [''i9''], tags = [], linkedCharacterIds = [''c1''], linkedPlaceIds = [],
            createdAt = 3, updatedAt = 3\<rparr>"

definition harriet :: character where
  "harriet = \<lparr>character.id' = ''c3'', novelId = ''n2'', name = ''Harriet'', description = [],
            images = [], tags = [Side], linkedCharacterIds = [''c1''], linkedPlaceIds = [],
            createdAt = 5, updatedAt = 5\<rparr>"

definition arrakis :: place where
  "arrakis = \<lparr>place.id' = ''p1'', novelId = ''n1'', name = ''Arrakis'', description = [],
            images = [''i2''], linkedCharacterIds = [''c1''], createdAt = 6, updatedAt = 6\<rparr>"

definition memo :: "note" where
  "memo = \<lparr>note.id' = ''t1'', novelId = ''n1'', title = ''Spice'', content = [],
            linkedCharacterIds = [''c1''], linkedPlaceIds = [''p1''],
            createdAt = 7, updatedAt = 7\<rparr>"

definition library :: conn where
  "library =
     \<lparr>db = \<lparr>novelCompanionDB.novels = [dune, emma],
             characters = [paul, leto, harriet],
             places = [arrakis],
             notes = [memo],
             images = [\<lparr>image.id' = ''i1'', data = ''AAAA''\<rparr>, \<lparr>image.id' = ''i2'', data = ''BBBB''\<rparr>,
                       \<lparr>image.id' = ''i3'', data = ''CCCC''\<rparr>, \<lparr>image.id' = ''i4'', data = []\<rparr>,
                       \<lparr>image.id' = ''i5'', data = ''EEEE''\<rparr>]\<rparr>,
      txlog = []\<rparr>"

definition freshConn :: conn where
  "freshConn = \<lparr>db = emptyDB, txlog = []\<rparr>"

text \<open>Payloads of \<^verbatim>\<open>update\<close> with no key at all.\<close>

definition noChange_novel :: novel_partial where
  "noChange_novel = \<lparr>novel_partial.id' = None, title = None, author = None, coverImage = None,
     createdAt = None, updatedAt = None\<rparr>"

definition noChange_character :: character_partial where
  "noChange_character = \<lparr>character_partial.id' = None, novelId = None, name = None,
     description = None, images = None, tags = None, linkedCharacterIds = None,
     linkedPlaceIds = None, createdAt = None, updatedAt = None\<rparr>"

definition noChange_place :: place_partial where
  "noChange_place = \<lparr>place_partial.id' = None, novelId = None, name = None,
     description = None, images = None, linkedCharacterIds = None,
     createdAt = None, updatedAt = None\<rparr>"

definition noChange_note :: note_partial where
  "noChange_note = \<lparr>note_partial.id' = None, novelId = None, title = None,
     content = None, linkedCharacterIds = None, linkedPlaceIds = None,
     createdAt = None, updatedAt = None\<rparr>"

section \<open>Notions used to state the properties of delete\<close>

text \<open>
  The requests of the read-write transaction of \<^verbatim>\<open>novelDB.delete\<close>, from the database
  the three index reads see, and the image ids in the \<^verbatim>\<open>images\<close> lists of the
  characters and places of a novel.
\<close>

fun isDelete :: "request \<Rightarrow> bool" where
  "isDelete (Delete sn k) = True"
| "isDelete rq = False"

definition dependentImageIds :: "string \<Rightarrow> novelCompanionDB \<Rightarrow> string list" where
  "dependentImageIds i d =
     concat (map character.images (index_by_novel character.novelId i (novelCompanionDB.characters d))) @
     concat (map place.images (index_by_novel place.novelId i (novelCompanionDB.places d)))"

definition novelDeleteRequests :: "string \<Rightarrow> novelCompanionDB \<Rightarrow> request list" where
  "novelDeleteRequests i d =
     concat (map (\<lambda>c. Delete Characters (character.id' c) #
                        map (Delete Images) (character.images c))
               (index_by_novel character.novelId i (novelCompanionDB.characters d))) @
     concat (map (\<lambda>p. Delete Places (place.id' p) #
                        map (Delete Images) (place.images p))
               (index_by_novel place.novelId i (novelCompanionDB.places d))) @
     map (\<lambda>n. Delete Notes (note.id' n))
       (index_by_novel note.novelId i (novelCompanionDB.notes d)) @
     [Delete Novels i]"

text \<open>
  For \<^verbatim>\<open>characterDB.delete\<close> of the character \<open>b\<close> with id \<open>i\<close>: the characters the
  closing loop scans (those of \<open>b\<close>'s novel that are left once \<open>b\<close> is deleted), the
  record the loop writes for a character \<open>c\<close> when the clock reads \<open>t\<close>, and the number
  of records the loop has rewritten when it reaches the character with id \<open>k\<close>.
\<close>

definition survivors :: "string \<Rightarrow> character \<Rightarrow> novelCompanionDB \<Rightarrow> character list" where
  "survivors i b d =
     index_by_novel character.novelId (character.novelId b)
       (store_delete character.id' i (novelCompanionDB.characters d))"

definition unlinked :: "string \<Rightarrow> int \<Rightarrow> character \<Rightarrow> character" where
  "unlinked i t c =
     c\<lparr>character.linkedCharacterIds := filter (\<lambda>cid. cid \<noteq> i) (character.linkedCharacterIds c),
       character.updatedAt := t\<rparr>"

definition rewrittenBefore :: "string \<Rightarrow> string \<Rightarrow> character list \<Rightarrow> nat" where
  "rewrittenBefore i k cs =
     length (filter (\<lambda>c. i \<in> set (character.linkedCharacterIds c))
               (takeWhile (\<lambda>c. character.id' c \<noteq> k) cs))"

section \<open>Notions used to state the properties of export and import\<close>

text \<open>
  The record \<^verbatim>\<open>{ id, data: dataStr }\<close> that \<^verbatim>\<open>importAll\<close> puts for an entry of the
  \<^verbatim>\<open>images\<close> object; the last record with a given key in a list (the one a sequence
  of puts leaves in the store); and what the five loops of puts of \<^verbatim>\<open>importAll\<close>
  make of a database.
\<close>

definition mkImage :: "string \<times> string \<Rightarrow> image" where
  "mkImage e = \<lparr>image.id' = fst e, data = snd e\<rparr>"

definition lastWithKey :: "('a \<Rightarrow> string) \<Rightarrow> string \<Rightarrow> 'a list \<Rightarrow> 'a option" where
  "lastWithKey key k rs = find (\<lambda>r. key r = k) (rev rs)"

definition putAll ::
  "(string \<times> string) list \<Rightarrow> novel list \<Rightarrow> character list \<Rightarrow> place list \<Rightarrow> note list \<Rightarrow>
   novelCompanionDB \<Rightarrow> novelCompanionDB" where
  "putAll imgs ns cs ps nts d =
     \<lparr>novelCompanionDB.novels = fold (store_put novel.id') ns (novelCompanionDB.novels d),
      characters = fold (store_put character.id') cs (novelCompanionDB.characters d),
      places = fold (store_put place.id') ps (novelCompanionDB.places d),
      notes = fold (store_put note.id') nts (novelCompanionDB.notes d),
      images = fold (store_put image.id') (map mkImage imgs) (novelCompanionDB.images d)\<rparr>"

text \<open>
  The key and value of the assignment \<^verbatim>\<open>images[id] = data\<close> that \<^verbatim>\<open>exportAll\<close>
  makes for an image id (none when the image is missing or its data is empty), and
  the ids the exported entities refer to: the entries of the
  \<^verbatim>\<open>images\<close> lists of the characters and places and the \<^verbatim>\<open>coverImage\<close> of the
  novels that have one.
\<close>

definition imageEntry :: "novelCompanionDB \<Rightarrow> string \<Rightarrow> (string \<times> string) option" where
  "imageEntry d i =
     (case store_get image.id' i (novelCompanionDB.images d) of
        None \<Rightarrow> None
      | Some im \<Rightarrow> if image.data im \<noteq> [] then Some (i, image.data im) else None)"

definition referencedImageIds :: "novel list \<Rightarrow> character list \<Rightarrow> place list \<Rightarrow> string list" where
  "referencedImageIds ns cs ps =
     concat (map character.images cs) @ concat (map place.images ps) @
     List.map_filter novel.coverImage ns"

text \<open>
  A backup document for the concrete database: it has a novel with the id of Dune,
  a novel with a new id, and one image.
\<close>

definition duneRevised :: novel where
  "duneRevised = \<lparr>novel.id' = ''n1'', title = ''Dune Messiah'', author = Some ''Herbert'',
     coverImage = None, createdAt = 1, updatedAt = 30\<rparr>"

definition persuasion :: novel where
  "persuasion = \<lparr>novel.id' = ''n3'', title = ''Persuasion'', author = Some ''Austen'',
     coverImage = None, createdAt = 31, updatedAt = 31\<rparr>"

definition backup :: exportData where
  "backup = \<lparr>version = Some ''1.0'', exportedAt = Some 40, novels = Some [duneRevised, persuasion],
     characters = Some [], places = Some [], notes = Some [], images = Some [(''i7'', ''GGGG'')]\<rparr>"

text \<open>
  A sequence of assignments \<^verbatim>\<open>images[k] = v\<close>, one for each entry of a list, in the
  order of the list; a backup document with the key \<^verbatim>\<open>__proto__\<close> in its \<^verbatim>\<open>images\<close>
  (\<^verbatim>\<open>JSON.parse\<close> makes an own property of it, which \<^verbatim>\<open>Object.entries\<close> enumerates);
  and the database with an image of that id, to which a character refers, that the
  import of the document into an empty database gives.
\<close>

definition assignAll ::
  "(string \<times> string) list \<Rightarrow> (string \<times> string) list \<Rightarrow> (string \<times> string) list" where
  "assignAll entries obj = fold (\<lambda>e ob. objectSet ob (fst e) (snd e)) entries obj"

definition protoBackup :: exportData where
  "protoBackup = \<lparr>version = Some ''1.0'', exportedAt = Some 50, novels = Some [],
     characters = Some [paul\<lparr>character.images := [''__proto__'', ''i1'']\<rparr>],
     places = Some [], notes = Some [],
     images = Some [(''__proto__'', ''PPPP''), (''i1'', ''AAAA'')]\<rparr>"

definition protoConn :: conn where
  "protoConn =
     \<lparr>db = \<lparr>novelCompanionDB.novels = [],
             characters = [paul\<lparr>character.images := [''__proto__'', ''i1'']\<rparr>],
             places = [],
             notes = [],
             images = [\<lparr>image.id' = ''__proto__'', data = ''PPPP''\<rparr>,
                       \<lparr>image.id' = ''i1'', data = ''AAAA''\<rparr>]\<rparr>,
      txlog = []\<rparr>"

section \<open>Properties of the storage engine\<close>

lemma store_get_put:
  "store_get key k (store_put key r xs) = (if k = key r then Some r else store_get key k xs)"
  by (induction xs) (auto simp: store_get_def)

lemma set_store_put_subset: "set (store_put key r xs) \<subseteq> insert r (set xs)"
  by (induction xs) auto

lemma store_wf_put: "store_wf key xs \<Longrightarrow> store_wf key (store_put key r xs)"
  unfolding store_wf_def
proof (induction xs)
  case Nil
  then show ?case by simp
next
  case (Cons x xs)
  have "\<forall>y\<in>set (store_put key r xs). key x < key y" if "key x < key r"
    using Cons.prems that set_store_put_subset [of key r xs] by auto
  with Cons show ?case by auto
qed

lemma store_wf_delete: "store_wf key xs \<Longrightarrow> store_wf key (store_delete key k xs)"
  by (simp add: store_wf_def store_delete_def sorted_wrt_map sorted_wrt_filter)

lemma store_wf_distinct: "store_wf key xs \<Longrightarrow> distinct (map key xs)"
  by (simp add: store_wf_def strict_sorted_iff)

lemma store_wf_Nil [simp]: "store_wf key []"
  by (simp add: store_wf_def)

lemma store_wf_filter: "store_wf key xs \<Longrightarrow> store_wf key (filter P xs)"
  by (simp add: store_wf_def sorted_wrt_map sorted_wrt_filter)

lemma store_get_Nil [simp]: "store_get key k [] = None"
  by (simp add: store_get_def)

lemma store_get_Some_iff:
  "store_wf key xs \<Longrightarrow> store_get key k xs = Some r \<longleftrightarrow> r \<in> set xs \<and> key r = k"
  unfolding store_wf_def store_get_def
  by (induction xs) auto

lemma store_get_None_iff: "store_get key k xs = None \<longleftrightarrow> k \<notin> key ` set xs"
  unfolding store_get_def by (induction xs) auto

lemma find_SomeD: "find P xs = Some x \<Longrightarrow> x \<in> set xs \<and> P x"
  by (induction xs) (auto split: if_splits)

lemma store_key_unique:
  "store_wf key xs \<Longrightarrow> r \<in> set xs \<Longrightarrow> r' \<in> set xs \<Longrightarrow> key r = key r' \<Longrightarrow> r = r'"
  using store_get_Some_iff [of key xs "key r" r] store_get_Some_iff [of key xs "key r" r']
  by simp

lemma find_key_member:
  "store_wf key xs \<Longrightarrow> r \<in> set xs \<Longrightarrow> find (\<lambda>x. key x = key r) xs = Some r"
  using store_get_Some_iff [of key xs "key r" r] by (simp add: store_get_def)

lemma store_get_filter_key:
  "store_get key k (filter (\<lambda>r. Q (key r)) xs) = (if Q k then store_get key k xs else None)"
  by (induction xs) (auto simp: store_get_def)

lemma store_get_delete:
  "store_get key k (store_delete key k' xs) = (if k = k' then None else store_get key k xs)"
  by (induction xs) (auto simp: store_get_def store_delete_def)

lemma store_put_snoc:
  "\<forall>x\<in>set acc. key x < key r \<Longrightarrow> store_put key r acc = acc @ [r]"
  by (induction acc) auto

lemma fold_store_put_wf:
  "store_wf key (acc @ xs) \<Longrightarrow> fold (store_put key) xs acc = acc @ xs"
proof (induction xs arbitrary: acc)
  case Nil
  then show ?case by simp
next
  case (Cons x xs)
  from Cons.prems have "\<forall>y\<in>set acc. key y < key x"
    by (auto simp: store_wf_def sorted_wrt_append)
  then have "store_put key x acc = acc @ [x]" by (rule store_put_snoc)
  moreover from Cons.prems have "store_wf key ((acc @ [x]) @ xs)" by simp
  ultimately show ?case using Cons.IH [of "acc @ [x]"] by simp
qed

lemma store_wf_fold_put:
  "store_wf key acc \<Longrightarrow> store_wf key (fold (store_put key) rs acc)"
  by (induction rs arbitrary: acc) (simp_all add: store_wf_put)

lemma store_wf_unique:
  assumes "store_wf key xs" and "store_wf key ys" and "set xs = set ys"
  shows "xs = ys"
proof -
  have "map key xs = map key ys"
    using assms by (intro strict_sorted_equal) (simp_all add: store_wf_def)
  moreover have "inj_on key (set xs \<union> set ys)"
    using store_wf_distinct [OF assms(1)] assms(3) by (simp add: distinct_map)
  ultimately show ?thesis by (rule map_inj_on)
qed

lemma index_by_novel_wf:
  "store_wf key xs \<Longrightarrow> store_wf key (index_by_novel nid q xs)"
  by (simp add: store_wf_def index_by_novel_def sorted_wrt_map sorted_wrt_filter)

lemma index_by_novel_set [simp]:
  "set (index_by_novel nid q xs) = {r \<in> set xs. nid r = q}"
  by (simp add: index_by_novel_def)

lemma txlog_db_read [simp]:
  "txlog (db_read rq s) =
     txlog s @ [\<lparr>tx_stores = [storeOf rq], tx_mode = Readonly, tx_requests = [rq]\<rparr>]"
  by (simp add: db_read_def transact_def)

lemma txlog_db_write [simp]:
  "txlog (db_write rq s) =
     txlog s @ [\<lparr>tx_stores = [storeOf rq], tx_mode = Readwrite, tx_requests = [rq]\<rparr>]"
  by (simp add: db_write_def transact_def)

lemma db_transact [simp]:
  "db (transact sns Readwrite reqs s) = fold perform reqs (db s)"
  "db (transact sns Readonly reqs s) = db s"
  by (simp_all add: transact_def)

lemma txlog_transact [simp]:
  "txlog (transact sns m reqs s) =
     txlog s @ [\<lparr>tx_stores = sns, tx_mode = m, tx_requests = reqs\<rparr>]"
  by (simp add: transact_def)

lemma db_db_write [simp]: "db (db_write rq s) = perform rq (db s)"
  by (simp add: db_write_def)

lemma db_db_read [simp]: "db (db_read rq s) = db s"
  by (simp add: db_read_def)

lemmas library_defs =
  library_def dune_def emma_def paul_def leto_def harriet_def arrakis_def memo_def

lemma library_wf: "db_wf (db library)"
  by (simp add: db_wf_def store_wf_def library_defs)

section \<open>Timestamps of create and update\<close>

lemma novel_create_ts:
  "novel.createdAt (fst (novelDB_create nv gid now s)) = now \<and>
   novel.updatedAt (fst (novelDB_create nv gid now s)) = now"
  by (simp add: novelDB_create_def Let_def)

lemma character_create_ts:
  "character.createdAt (fst (characterDB_create ch gid now s)) = now \<and>
   character.updatedAt (fst (characterDB_create ch gid now s)) = now"
  by (simp add: characterDB_create_def Let_def)

lemma place_create_ts:
  "place.createdAt (fst (placeDB_create pl gid now s)) = now \<and>
   place.updatedAt (fst (placeDB_create pl gid now s)) = now"
  by (simp add: placeDB_create_def Let_def)

lemma note_create_ts:
  "note.createdAt (fst (noteDB_create nt gid now s)) = now \<and>
   note.updatedAt (fst (noteDB_create nt gid now s)) = now"
  by (simp add: noteDB_create_def Let_def)

lemma novel_update_ts:
  assumes "store_get novel.id' i (novelCompanionDB.novels (db s)) = Some e"
  shows "\<exists>u. fst (novelDB_update i dat now s) = Some u \<and>
           store_get novel.id' i (novelCompanionDB.novels (db (snd (novelDB_update i dat now s))))
             = Some u \<and>
           novel.updatedAt u = now \<and>
           novel.createdAt u = spread (novel.createdAt e) (novel_partial.createdAt dat)"
  using assms
  by (simp add: novelDB_update_def db_get_novel_def Let_def store_get_put novel_spread_def)

lemma character_update_ts:
  assumes "store_get character.id' i (novelCompanionDB.characters (db s)) = Some e"
  shows "\<exists>u. fst (characterDB_update i dat now s) = Some u \<and>
           store_get character.id' i
             (novelCompanionDB.characters (db (snd (characterDB_update i dat now s)))) = Some u \<and>
           character.updatedAt u = now \<and>
           character.createdAt u =
             spread (character.createdAt e) (character_partial.createdAt dat)"
  using assms
  by (simp add: characterDB_update_def db_get_character_def Let_def store_get_put
      character_spread_def)

lemma place_update_ts:
  assumes "store_get place.id' i (novelCompanionDB.places (db s)) = Some e"
  shows "\<exists>u. fst (placeDB_update i dat now s) = Some u \<and>
           store_get place.id' i (novelCompanionDB.places (db (snd (placeDB_update i dat now s))))
             = Some u \<and>
           place.updatedAt u = now \<and>
           place.createdAt u = spread (place.createdAt e) (place_partial.createdAt dat)"
  using assms
  by (simp add: placeDB_update_def db_get_place_def Let_def store_get_put place_spread_def)

lemma note_update_ts:
  assumes "store_get note.id' i (novelCompanionDB.notes (db s)) = Some e"
  shows "\<exists>u. fst (noteDB_update i dat now s) = Some u \<and>
           store_get note.id' i (novelCompanionDB.notes (db (snd (noteDB_update i dat now s))))
             = Some u \<and>
           note.updatedAt u = now \<and>
           note.createdAt u = spread (note.createdAt e) (note_partial.createdAt dat)"
  using assms
  by (simp add: noteDB_update_def db_get_note_def Let_def store_get_put note_spread_def)

text \<open>
  Claim C5, as the code has it. A record returned by \<^verbatim>\<open>create\<close> has \<^verbatim>\<open>createdAt\<close> and
  \<^verbatim>\<open>updatedAt\<close> both equal to the reading of the clock. \<^verbatim>\<open>update\<close> of an existing
  record returns and stores a record whose \<^verbatim>\<open>updatedAt\<close> is the reading of the clock,
  whatever the payload says, and whose \<^verbatim>\<open>createdAt\<close> is the payload's when the payload
  has one and the stored one otherwise.
\<close>

theorem timestamp_discipline:
  "novel.createdAt (fst (novelDB_create nv g1 now s)) = now \<and>
   novel.updatedAt (fst (novelDB_create nv g1 now s)) = now \<and>
   character.createdAt (fst (characterDB_create ch g2 now s)) = now \<and>
   character.updatedAt (fst (characterDB_create ch g2 now s)) = now \<and>
   place.createdAt (fst (placeDB_create pl g3 now s)) = now \<and>
   place.updatedAt (fst (placeDB_create pl g3 now s)) = now \<and>
   note.createdAt (fst (noteDB_create nt g4 now s)) = now \<and>
   note.updatedAt (fst (noteDB_create nt g4 now s)) = now \<and>
   (store_get novel.id' i1 (novelCompanionDB.novels (db s)) = Some e1 \<longrightarrow>
      (\<exists>u. fst (novelDB_update i1 d1 now s) = Some u \<and>
           store_get novel.id' i1
             (novelCompanionDB.novels (db (snd (novelDB_update i1 d1 now s)))) = Some u \<and>
           novel.updatedAt u = now \<and>
           novel.createdAt u = spread (novel.createdAt e1) (novel_partial.createdAt d1))) \<and>
   (store_get character.id' i2 (novelCompanionDB.characters (db s)) = Some e2 \<longrightarrow>
      (\<exists>u. fst (characterDB_update i2 d2 now s) = Some u \<and>
           store_get character.id' i2
             (novelCompanionDB.characters (db (snd (characterDB_update i2 d2 now s)))) = Some u \<and>
           character.updatedAt u = now \<and>
           character.createdAt u =
             spread (character.createdAt e2) (character_partial.createdAt d2))) \<and>
   (store_get place.id' i3 (novelCompanionDB.places (db s)) = Some e3 \<longrightarrow>
      (\<exists>u. fst (placeDB_update i3 d3 now s) = Some u \<and>
           store_get place.id' i3
             (novelCompanionDB.places (db (snd (placeDB_update i3 d3 now s)))) = Some u \<and>
           place.updatedAt u = now \<and>
           place.createdAt u = spread (place.createdAt e3) (place_partial.createdAt d3))) \<and>
   (store_get note.id' i4 (novelCompanionDB.notes (db s)) = Some e4 \<longrightarrow>
      (\<exists>u. fst (noteDB_update i4 d4 now s) = Some u \<and>
           store_get note.id' i4
             (novelCompanionDB.notes (db (snd (noteDB_update i4 d4 now s)))) = Some u \<and>
           note.updatedAt u = now \<and>
           note.createdAt u = spread (note.createdAt e4) (note_partial.createdAt d4)))"
  by (intro conjI impI;
      (erule novel_update_ts character_update_ts place_update_ts note_update_ts)?)
     (simp_all add: novel_create_ts character_create_ts place_create_ts note_create_ts)

theorem timestamp_discipline_witness:
  "(\<exists>u. fst (novelDB_update ''n1'' noChange_novel 20 library) = Some u \<and>
        novel.updatedAt u = 20 \<and> novel.createdAt u = novel.createdAt dune) \<and>
   (\<exists>u. fst (characterDB_update ''c1''
               (noChange_character\<lparr>character_partial.createdAt := Some 5\<rparr>) 20 library) = Some u \<and>
        character.updatedAt u = 20 \<and> character.createdAt u = 5) \<and>
   (\<exists>u. fst (placeDB_update ''p1'' noChange_place 20 library) = Some u \<and>
        place.updatedAt u = 20 \<and> place.createdAt u = place.createdAt arrakis) \<and>
   (\<exists>u. fst (noteDB_update ''t1'' noChange_note 20 library) = Some u \<and>
        note.updatedAt u = 20 \<and> note.createdAt u = note.createdAt memo)"
proof -
  have h1: "store_get novel.id' ''n1'' (novelCompanionDB.novels (db library)) = Some dune"
    by (simp add: store_get_def library_defs)
  have h2: "store_get character.id' ''c1'' (novelCompanionDB.characters (db library)) = Some paul"
    by (simp add: store_get_def library_defs)
  have h3: "store_get place.id' ''p1'' (novelCompanionDB.places (db library)) = Some arrakis"
    by (simp add: store_get_def library_defs)
  have h4: "store_get note.id' ''t1'' (novelCompanionDB.notes (db library)) = Some memo"
    by (simp add: store_get_def library_defs)
  note T = timestamp_discipline [where s = library and now = 20
        and nv = dune and ch = paul and pl = arrakis and nt = memo
        and ?g1.0 = "''n9''" and ?g2.0 = "''c9''" and ?g3.0 = "''p9''" and ?g4.0 = "''t9''"
        and ?i1.0 = "''n1''" and ?e1.0 = dune and ?d1.0 = noChange_novel
        and ?i2.0 = "''c1''" and ?e2.0 = paul
        and ?d2.0 = "noChange_character\<lparr>character_partial.createdAt := Some 5\<rparr>"
        and ?i3.0 = "''p1''" and ?e3.0 = arrakis and ?d3.0 = noChange_place
        and ?i4.0 = "''t1''" and ?e4.0 = memo and ?d4.0 = noChange_note]
  show ?thesis
    using T h1 h2 h3 h4
    by (auto simp: spread_def noChange_novel_def noChange_place_def noChange_note_def)
qed

text \<open>
  Claim C5 as stated fails: a payload with \<^verbatim>\<open>createdAt\<close> replaces the stored
  \<^verbatim>\<open>createdAt\<close>, and an update made while the clock reads the stored \<^verbatim>\<open>updatedAt\<close>
  does not increase it.
\<close>

theorem update_timestamps_counterexample:
  "fst (characterDB_update ''c1'' (noChange_character\<lparr>character_partial.createdAt := Some 5\<rparr>)
          9 library)
     = Some (paul\<lparr>character.createdAt := 5\<rparr>) \<and>
   character.createdAt paul = 2 \<and> character.updatedAt paul = 9 \<and>
   character.createdAt (paul\<lparr>character.createdAt := 5\<rparr>) \<noteq> character.createdAt paul \<and>
   \<not> character.updatedAt paul < character.updatedAt (paul\<lparr>character.createdAt := 5\<rparr>)"
  by (simp add: characterDB_update_def db_get_character_def store_get_def character_spread_def
      spread_def noChange_character_def library_defs Let_def)

section \<open>Order of the lists\<close>

text \<open>
  Claim C6, as the code has it. \<^verbatim>\<open>novelDB.getAll\<close> reads the index \<^verbatim>\<open>by-updated\<close>: all
  novels, in ascending \<^verbatim>\<open>updatedAt\<close>. \<^verbatim>\<open>getByNovel\<close> of characters, places and notes
  reads the index \<^verbatim>\<open>by-novel\<close>: exactly the records of that novel, in the order of the
  store, which is ascending \<^verbatim>\<open>id\<close>.
\<close>

theorem list_ordering:
  "sorted (map novel.updatedAt (fst (novelDB_getAll s))) \<and>
   set (fst (novelDB_getAll s)) = set (novelCompanionDB.novels (db s)) \<and>
   length (fst (novelDB_getAll s)) = length (novelCompanionDB.novels (db s)) \<and>
   fst (characterDB_getByNovel q s) =
     filter (\<lambda>c. character.novelId c = q) (novelCompanionDB.characters (db s)) \<and>
   fst (placeDB_getByNovel q s) =
     filter (\<lambda>p. place.novelId p = q) (novelCompanionDB.places (db s)) \<and>
   fst (noteDB_getByNovel q s) =
     filter (\<lambda>n. note.novelId n = q) (novelCompanionDB.notes (db s)) \<and>
   (db_wf (db s) \<longrightarrow>
      sorted_wrt (<) (map character.id' (fst (characterDB_getByNovel q s))) \<and>
      sorted_wrt (<) (map place.id' (fst (placeDB_getByNovel q s))) \<and>
      sorted_wrt (<) (map note.id' (fst (noteDB_getByNovel q s))))"
proof -
  have "sorted (map novel.updatedAt (fst (novelDB_getAll s)))"
    by (simp add: novelDB_getAll_def db_novels_by_updated_def index_by_updated_def)
  moreover have "set (fst (novelDB_getAll s)) = set (novelCompanionDB.novels (db s))"
    by (simp add: novelDB_getAll_def db_novels_by_updated_def index_by_updated_def)
  moreover have "length (fst (novelDB_getAll s)) = length (novelCompanionDB.novels (db s))"
    by (simp add: novelDB_getAll_def db_novels_by_updated_def index_by_updated_def)
  moreover have "fst (characterDB_getByNovel q s) =
      filter (\<lambda>c. character.novelId c = q) (novelCompanionDB.characters (db s))"
    by (simp add: characterDB_getByNovel_def db_characters_by_novel_def index_by_novel_def)
  moreover have "fst (placeDB_getByNovel q s) =
      filter (\<lambda>p. place.novelId p = q) (novelCompanionDB.places (db s))"
    by (simp add: placeDB_getByNovel_def db_places_by_novel_def index_by_novel_def)
  moreover have "fst (noteDB_getByNovel q s) =
      filter (\<lambda>n. note.novelId n = q) (novelCompanionDB.notes (db s))"
    by (simp add: noteDB_getByNovel_def db_notes_by_novel_def index_by_novel_def)
  moreover have "sorted_wrt (<) (map character.id' (fst (characterDB_getByNovel q s)))"
    if "db_wf (db s)"
    using that index_by_novel_wf [of character.id' "novelCompanionDB.characters (db s)"]
    by (simp add: characterDB_getByNovel_def db_characters_by_novel_def db_wf_def store_wf_def)
  moreover have "sorted_wrt (<) (map place.id' (fst (placeDB_getByNovel q s)))"
    if "db_wf (db s)"
    using that index_by_novel_wf [of place.id' "novelCompanionDB.places (db s)"]
    by (simp add: placeDB_getByNovel_def db_places_by_novel_def db_wf_def store_wf_def)
  moreover have "sorted_wrt (<) (map note.id' (fst (noteDB_getByNovel q s)))"
    if "db_wf (db s)"
    using that index_by_novel_wf [of note.id' "novelCompanionDB.notes (db s)"]
    by (simp add: noteDB_getByNovel_def db_notes_by_novel_def db_wf_def store_wf_def)
  ultimately show ?thesis by blast
qed

theorem list_ordering_witness:
  "db_wf (db library) \<and>
   sorted_wrt (<) (map character.id' (fst (characterDB_getByNovel ''n1'' library))) \<and>
   sorted_wrt (<) (map place.id' (fst (placeDB_getByNovel ''n1'' library))) \<and>
   sorted_wrt (<) (map note.id' (fst (noteDB_getByNovel ''n1'' library)))"
  using list_ordering [of library "''n1''"] library_wf by blast

text \<open>
  Claim C6 as stated fails for \<^verbatim>\<open>getByNovel\<close>: Paul (id \<open>c1\<close>, updated at 9) comes
  before Leto (id \<open>c2\<close>, updated at 3).
\<close>

theorem listByNovel_order_counterexample:
  "fst (characterDB_getByNovel ''n1'' library) = [paul, leto] \<and>
   map character.updatedAt [paul, leto] = [9, 3] \<and>
   \<not> sorted (map character.updatedAt (fst (characterDB_getByNovel ''n1'' library)))"
  by (simp add: characterDB_getByNovel_def db_characters_by_novel_def index_by_novel_def
      library_defs)

section \<open>Deleting a novel\<close>

lemma fold_deletes:
  assumes "\<forall>rq\<in>set reqs. isDelete rq"
  shows "fold perform reqs d =
     \<lparr>novelCompanionDB.novels =
        filter (\<lambda>r. Delete Novels (novel.id' r) \<notin> set reqs) (novelCompanionDB.novels d),
      characters =
        filter (\<lambda>r. Delete Characters (character.id' r) \<notin> set reqs)
          (novelCompanionDB.characters d),
      places =
        filter (\<lambda>r. Delete Places (place.id' r) \<notin> set reqs) (novelCompanionDB.places d),
      notes =
        filter (\<lambda>r. Delete Notes (note.id' r) \<notin> set reqs) (novelCompanionDB.notes d),
      images =
        filter (\<lambda>r. Delete Images (image.id' r) \<notin> set reqs) (novelCompanionDB.images d)\<rparr>"
  using assms
proof (induction reqs arbitrary: d)
  case Nil
  show ?case by simp
next
  case (Cons rq reqs)
  obtain sn k where rq: "rq = Delete sn k"
    using Cons.prems by (cases rq) auto
  have rest: "\<forall>rq\<in>set reqs. isDelete rq" using Cons.prems by simp
  show ?case
    using Cons.IH[OF rest, of "perform rq d"]
    by (cases sn) (auto simp: rq store_delete_def intro: filter_cong)
qed

lemma store_get_fold_deletes:
  assumes "\<forall>rq\<in>set reqs. isDelete rq"
  shows "store_get novel.id' k (novelCompanionDB.novels (fold perform reqs d)) =
           (if Delete Novels k \<in> set reqs then None
            else store_get novel.id' k (novelCompanionDB.novels d))"
    and "store_get character.id' k (novelCompanionDB.characters (fold perform reqs d)) =
           (if Delete Characters k \<in> set reqs then None
            else store_get character.id' k (novelCompanionDB.characters d))"
    and "store_get place.id' k (novelCompanionDB.places (fold perform reqs d)) =
           (if Delete Places k \<in> set reqs then None
            else store_get place.id' k (novelCompanionDB.places d))"
    and "store_get note.id' k (novelCompanionDB.notes (fold perform reqs d)) =
           (if Delete Notes k \<in> set reqs then None
            else store_get note.id' k (novelCompanionDB.notes d))"
    and "store_get image.id' k (novelCompanionDB.images (fold perform reqs d)) =
           (if Delete Images k \<in> set reqs then None
            else store_get image.id' k (novelCompanionDB.images d))"
proof -
  note F = fold_deletes [OF assms, of d]
  show "store_get novel.id' k (novelCompanionDB.novels (fold perform reqs d)) =
           (if Delete Novels k \<in> set reqs then None
            else store_get novel.id' k (novelCompanionDB.novels d))"
    unfolding F novelCompanionDB.select_convs
    by (subst store_get_filter_key [of novel.id' k "\<lambda>k. Delete Novels k \<notin> set reqs"]) simp
  show "store_get character.id' k (novelCompanionDB.characters (fold perform reqs d)) =
           (if Delete Characters k \<in> set reqs then None
            else store_get character.id' k (novelCompanionDB.characters d))"
    unfolding F novelCompanionDB.select_convs
    by (subst store_get_filter_key [of character.id' k "\<lambda>k. Delete Characters k \<notin> set reqs"])
      simp
  show "store_get place.id' k (novelCompanionDB.places (fold perform reqs d)) =
           (if Delete Places k \<in> set reqs then None
            else store_get place.id' k (novelCompanionDB.places d))"
    unfolding F novelCompanionDB.select_convs
    by (subst store_get_filter_key [of place.id' k "\<lambda>k. Delete Places k \<notin> set reqs"]) simp
  show "store_get note.id' k (novelCompanionDB.notes (fold perform reqs d)) =
           (if Delete Notes k \<in> set reqs then None
            else store_get note.id' k (novelCompanionDB.notes d))"
    unfolding F novelCompanionDB.select_convs
    by (subst store_get_filter_key [of note.id' k "\<lambda>k. Delete Notes k \<notin> set reqs"]) simp
  show "store_get image.id' k (novelCompanionDB.images (fold perform reqs d)) =
           (if Delete Images k \<in> set reqs then None
            else store_get image.id' k (novelCompanionDB.images d))"
    unfolding F novelCompanionDB.select_convs
    by (subst store_get_filter_key [of image.id' k "\<lambda>k. Delete Images k \<notin> set reqs"]) simp
qed

lemma novelDeleteRequests_isDelete: "\<forall>rq\<in>set (novelDeleteRequests i d). isDelete rq"
  by (auto simp: novelDeleteRequests_def)

lemma novelDeleteRequests_mem:
  "Delete Novels k \<in> set (novelDeleteRequests i d) \<longleftrightarrow> k = i"
  "Delete Characters k \<in> set (novelDeleteRequests i d) \<longleftrightarrow>
     k \<in> character.id' ` set (index_by_novel character.novelId i (novelCompanionDB.characters d))"
  "Delete Places k \<in> set (novelDeleteRequests i d) \<longleftrightarrow>
     k \<in> place.id' ` set (index_by_novel place.novelId i (novelCompanionDB.places d))"
  "Delete Notes k \<in> set (novelDeleteRequests i d) \<longleftrightarrow>
     k \<in> note.id' ` set (index_by_novel note.novelId i (novelCompanionDB.notes d))"
  "Delete Images k \<in> set (novelDeleteRequests i d) \<longleftrightarrow> k \<in> set (dependentImageIds i d)"
  by (auto simp: novelDeleteRequests_def dependentImageIds_def)

lemma novelDB_delete_run:
  "novelDB_delete i s =
     transact [Novels, Characters, Places, Notes, Images] Readwrite (novelDeleteRequests i (db s))
       (db_read (GetAllFromIndex Notes ByNovel (Some i))
         (db_read (GetAllFromIndex Places ByNovel (Some i))
           (db_read (GetAllFromIndex Characters ByNovel (Some i)) s)))"
  by (simp add: novelDB_delete_def db_characters_by_novel_def db_places_by_novel_def
      db_notes_by_novel_def novelDeleteRequests_def)

lemma novelDB_delete_db:
  "db (novelDB_delete i s) = fold perform (novelDeleteRequests i (db s)) (db s)"
  by (simp add: novelDB_delete_run)

lemma novelDB_delete_get:
  "store_get novel.id' k (novelCompanionDB.novels (db (novelDB_delete i s))) =
     (if k = i then None else store_get novel.id' k (novelCompanionDB.novels (db s)))"
  "store_get character.id' k (novelCompanionDB.characters (db (novelDB_delete i s))) =
     (if k \<in> character.id' `
            set (index_by_novel character.novelId i (novelCompanionDB.characters (db s)))
      then None else store_get character.id' k (novelCompanionDB.characters (db s)))"
  "store_get place.id' k (novelCompanionDB.places (db (novelDB_delete i s))) =
     (if k \<in> place.id' ` set (index_by_novel place.novelId i (novelCompanionDB.places (db s)))
      then None else store_get place.id' k (novelCompanionDB.places (db s)))"
  "store_get note.id' k (novelCompanionDB.notes (db (novelDB_delete i s))) =
     (if k \<in> note.id' ` set (index_by_novel note.novelId i (novelCompanionDB.notes (db s)))
      then None else store_get note.id' k (novelCompanionDB.notes (db s)))"
  "store_get image.id' k (novelCompanionDB.images (db (novelDB_delete i s))) =
     (if k \<in> set (dependentImageIds i (db s))
      then None else store_get image.id' k (novelCompanionDB.images (db s)))"
  by (simp_all add: novelDB_delete_db store_get_fold_deletes [OF novelDeleteRequests_isDelete]
      novelDeleteRequests_mem)

lemma dependentImageIds_character:
  "c \<in> set (novelCompanionDB.characters d) \<Longrightarrow> character.novelId c = i \<Longrightarrow>
     x \<in> set (character.images c) \<Longrightarrow> x \<in> set (dependentImageIds i d)"
  by (auto simp: dependentImageIds_def)

lemma dependentImageIds_place:
  "p \<in> set (novelCompanionDB.places d) \<Longrightarrow> place.novelId p = i \<Longrightarrow>
     x \<in> set (place.images p) \<Longrightarrow> x \<in> set (dependentImageIds i d)"
  by (auto simp: dependentImageIds_def)

text \<open>
  Claim C3, as the code has it. After \<^verbatim>\<open>novelDB.delete\<close> the novel, every character,
  place and note of the novel, and every image id in the \<^verbatim>\<open>images\<close> list of one of
  those characters and places are absent. The call runs four transactions: three
  read-only ones, each with one index read that fetches the dependents, and then one
  read-write transaction over the five stores, which holds nothing but delete
  requests and makes every change of the call.
\<close>

theorem cascading_delete:
  "store_get novel.id' i (novelCompanionDB.novels (db (novelDB_delete i s))) = None \<and>
   (\<forall>c\<in>set (novelCompanionDB.characters (db s)). character.novelId c = i \<longrightarrow>
      store_get character.id' (character.id' c)
        (novelCompanionDB.characters (db (novelDB_delete i s))) = None \<and>
      (\<forall>x\<in>set (character.images c).
         store_get image.id' x (novelCompanionDB.images (db (novelDB_delete i s))) = None)) \<and>
   (\<forall>p\<in>set (novelCompanionDB.places (db s)). place.novelId p = i \<longrightarrow>
      store_get place.id' (place.id' p)
        (novelCompanionDB.places (db (novelDB_delete i s))) = None \<and>
      (\<forall>x\<in>set (place.images p).
         store_get image.id' x (novelCompanionDB.images (db (novelDB_delete i s))) = None)) \<and>
   (\<forall>n\<in>set (novelCompanionDB.notes (db s)). note.novelId n = i \<longrightarrow>
      store_get note.id' (note.id' n) (novelCompanionDB.notes (db (novelDB_delete i s))) = None) \<and>
   txlog (novelDB_delete i s) =
     txlog s @
     [\<lparr>tx_stores = [Characters], tx_mode = Readonly,
        tx_requests = [GetAllFromIndex Characters ByNovel (Some i)]\<rparr>,
      \<lparr>tx_stores = [Places], tx_mode = Readonly,
        tx_requests = [GetAllFromIndex Places ByNovel (Some i)]\<rparr>,
      \<lparr>tx_stores = [Notes], tx_mode = Readonly,
        tx_requests = [GetAllFromIndex Notes ByNovel (Some i)]\<rparr>,
      \<lparr>tx_stores = [Novels, Characters, Places, Notes, Images], tx_mode = Readwrite,
        tx_requests = novelDeleteRequests i (db s)\<rparr>] \<and>
   (\<forall>rq\<in>set (novelDeleteRequests i (db s)). isDelete rq) \<and>
   db (novelDB_delete i s) = fold perform (novelDeleteRequests i (db s)) (db s)"
proof (intro conjI ballI impI)
  show "txlog (novelDB_delete i s) =
     txlog s @
     [\<lparr>tx_stores = [Characters], tx_mode = Readonly,
        tx_requests = [GetAllFromIndex Characters ByNovel (Some i)]\<rparr>,
      \<lparr>tx_stores = [Places], tx_mode = Readonly,
        tx_requests = [GetAllFromIndex Places ByNovel (Some i)]\<rparr>,
      \<lparr>tx_stores = [Notes], tx_mode = Readonly,
        tx_requests = [GetAllFromIndex Notes ByNovel (Some i)]\<rparr>,
      \<lparr>tx_stores = [Novels, Characters, Places, Notes, Images], tx_mode = Readwrite,
        tx_requests = novelDeleteRequests i (db s)\<rparr>]"
    by (simp add: novelDB_delete_run)
next
  show "db (novelDB_delete i s) = fold perform (novelDeleteRequests i (db s)) (db s)"
    by (rule novelDB_delete_db)
next
  fix rq assume "rq \<in> set (novelDeleteRequests i (db s))"
  then show "isDelete rq" using novelDeleteRequests_isDelete by blast
qed (auto simp: novelDB_delete_get dependentImageIds_character dependentImageIds_place)

theorem cascading_delete_witness:
  "paul \<in> set (novelCompanionDB.characters (db library)) \<and> character.novelId paul = ''n1'' \<and>
   ''i1'' \<in> set (character.images paul) \<and>
   arrakis \<in> set (novelCompanionDB.places (db library)) \<and> place.novelId arrakis = ''n1'' \<and>
   ''i2'' \<in> set (place.images arrakis) \<and>
   memo \<in> set (novelCompanionDB.notes (db library)) \<and> note.novelId memo = ''n1'' \<and>
   store_get novel.id' ''n1'' (novelCompanionDB.novels (db (novelDB_delete ''n1'' library))) = None \<and>
   store_get character.id' (character.id' paul)
     (novelCompanionDB.characters (db (novelDB_delete ''n1'' library))) = None \<and>
   store_get image.id' ''i1'' (novelCompanionDB.images (db (novelDB_delete ''n1'' library))) = None \<and>
   store_get place.id' (place.id' arrakis)
     (novelCompanionDB.places (db (novelDB_delete ''n1'' library))) = None \<and>
   store_get image.id' ''i2'' (novelCompanionDB.images (db (novelDB_delete ''n1'' library))) = None \<and>
   store_get note.id' (note.id' memo)
     (novelCompanionDB.notes (db (novelDB_delete ''n1'' library))) = None"
proof -
  have h: "paul \<in> set (novelCompanionDB.characters (db library))"
      "character.novelId paul = ''n1''" "''i1'' \<in> set (character.images paul)"
      "arrakis \<in> set (novelCompanionDB.places (db library))" "place.novelId arrakis = ''n1''"
      "''i2'' \<in> set (place.images arrakis)"
      "memo \<in> set (novelCompanionDB.notes (db library))" "note.novelId memo = ''n1''"
    by (simp_all add: library_def paul_def arrakis_def memo_def)
  show ?thesis
    using h cascading_delete [of "''n1''" library] by blast
qed

text \<open>
  Claim C3 as stated fails in its last part: the dependents are not fetched within
  the transaction of the deletions. On the concrete database the call adds four
  transactions to the log, and the last one has no read.
\<close>

theorem delete_transactions_counterexample:
  "txlog library = [] \<and>
   map tx_requests (txlog (novelDB_delete ''n1'' library)) =
     [[GetAllFromIndex Characters ByNovel (Some ''n1'')],
      [GetAllFromIndex Places ByNovel (Some ''n1'')],
      [GetAllFromIndex Notes ByNovel (Some ''n1'')],
      [Delete Characters ''c1'', Delete Images ''i1'', Delete Images ''i4'',
       Delete Characters ''c2'', Delete Images ''i9'',
       Delete Places ''p1'', Delete Images ''i2'',
       Delete Notes ''t1'', Delete Novels ''n1'']] \<and>
   length (txlog (novelDB_delete ''n1'' library)) \<noteq> length (txlog library) + 1"
  by (simp add: novelDB_delete_def db_characters_by_novel_def db_places_by_novel_def
      db_notes_by_novel_def index_by_novel_def db_read_def transact_def library_defs)

text \<open>
  Claim C9. When the novel has a cover image whose id is in no \<^verbatim>\<open>images\<close> list of a
  character or place of the novel, \<^verbatim>\<open>novelDB.delete\<close> leaves the record of that
  image as it was, while the novel, its characters, places and notes and the images
  in their lists are removed.
\<close>

theorem cover_image_survives:
  assumes "store_get novel.id' i (novelCompanionDB.novels (db s)) = Some nv"
    and "novel.coverImage nv = Some x"
    and "x \<notin> set (dependentImageIds i (db s))"
  shows "store_get image.id' x (novelCompanionDB.images (db (novelDB_delete i s))) =
           store_get image.id' x (novelCompanionDB.images (db s)) \<and>
         store_get novel.id' i (novelCompanionDB.novels (db (novelDB_delete i s))) = None \<and>
         (\<forall>c\<in>set (novelCompanionDB.characters (db s)). character.novelId c = i \<longrightarrow>
            store_get character.id' (character.id' c)
              (novelCompanionDB.characters (db (novelDB_delete i s))) = None) \<and>
         (\<forall>p\<in>set (novelCompanionDB.places (db s)). place.novelId p = i \<longrightarrow>
            store_get place.id' (place.id' p)
              (novelCompanionDB.places (db (novelDB_delete i s))) = None) \<and>
         (\<forall>n\<in>set (novelCompanionDB.notes (db s)). note.novelId n = i \<longrightarrow>
            store_get note.id' (note.id' n)
              (novelCompanionDB.notes (db (novelDB_delete i s))) = None) \<and>
         (\<forall>y\<in>set (dependentImageIds i (db s)).
            store_get image.id' y (novelCompanionDB.images (db (novelDB_delete i s))) = None)"
  using assms by (auto simp: novelDB_delete_get)

theorem cover_image_survives_witness:
  "store_get novel.id' ''n1'' (novelCompanionDB.novels (db library)) = Some dune \<and>
   novel.coverImage dune = Some ''i3'' \<and>
   ''i3'' \<notin> set (dependentImageIds ''n1'' (db library)) \<and>
   store_get image.id' ''i3'' (novelCompanionDB.images (db (novelDB_delete ''n1'' library))) =
     Some \<lparr>image.id' = ''i3'', data = ''CCCC''\<rparr> \<and>
   store_get novel.id' ''n1'' (novelCompanionDB.novels (db (novelDB_delete ''n1'' library))) = None"
proof -
  have h1: "store_get novel.id' ''n1'' (novelCompanionDB.novels (db library)) = Some dune"
    by (simp add: store_get_def library_defs)
  have h2: "novel.coverImage dune = Some ''i3''"
    by (simp add: dune_def)
  have h3: "''i3'' \<notin> set (dependentImageIds ''n1'' (db library))"
    by (simp add: dependentImageIds_def index_by_novel_def library_defs)
  have h4: "store_get image.id' ''i3'' (novelCompanionDB.images (db library)) =
      Some \<lparr>image.id' = ''i3'', data = ''CCCC''\<rparr>"
    by (simp add: store_get_def library_defs)
  show ?thesis
    using h1 h2 h3 h4 cover_image_survives [OF h1 h2 h3] by simp
qed

section \<open>Deleting a character\<close>

lemma removeReferences_other:
  "novelCompanionDB.novels (db (removeReferences i dn n cs s)) = novelCompanionDB.novels (db s) \<and>
   novelCompanionDB.places (db (removeReferences i dn n cs s)) = novelCompanionDB.places (db s) \<and>
   novelCompanionDB.notes (db (removeReferences i dn n cs s)) = novelCompanionDB.notes (db s) \<and>
   novelCompanionDB.images (db (removeReferences i dn n cs s)) = novelCompanionDB.images (db s)"
  by (induction i dn n cs s rule: removeReferences.induct) simp_all

lemma removeReferences_wf:
  "store_wf character.id' (novelCompanionDB.characters (db s)) \<Longrightarrow>
   store_wf character.id' (novelCompanionDB.characters (db (removeReferences i dn n cs s)))"
  by (induction i dn n cs s rule: removeReferences.induct) (simp_all add: store_wf_put)

lemma removeReferences_get:
  "distinct (map character.id' cs) \<Longrightarrow>
   store_get character.id' k (novelCompanionDB.characters (db (removeReferences i dn n cs s))) =
     (case find (\<lambda>c. character.id' c = k) cs of
        None \<Rightarrow> store_get character.id' k (novelCompanionDB.characters (db s))
      | Some c \<Rightarrow>
          if i \<in> set (character.linkedCharacterIds c)
          then Some (unlinked i (dn (n + rewrittenBefore i k cs)) c)
          else store_get character.id' k (novelCompanionDB.characters (db s)))"
proof (induction i dn n cs s rule: removeReferences.induct)
  case (1 i dateNow n s)
  then show ?case by simp
next
  case (2 i dateNow n c cs s)
  have nf: "find (\<lambda>c'. character.id' c' = character.id' c) cs = None"
  proof -
    have "character.id' c \<notin> character.id' ` set cs" using "2.prems" by simp
    then show ?thesis unfolding find_None_iff by (metis imageI)
  qed
  show ?case
  proof (cases "i \<in> set (character.linkedCharacterIds c)")
    case True
    with 2 nf show ?thesis
      by (auto simp: store_get_put rewrittenBefore_def unlinked_def split: option.splits)
  next
    case False
    with 2 nf show ?thesis
      by (auto simp: store_get_put rewrittenBefore_def unlinked_def split: option.splits)
  qed
qed

lemma characterDB_delete_absent:
  "store_get character.id' i (novelCompanionDB.characters (db s)) = None \<Longrightarrow>
   db (characterDB_delete i dn s) = db s"
  by (simp add: characterDB_delete_def db_get_character_def)

lemma characterDB_delete_present:
  assumes "store_get character.id' i (novelCompanionDB.characters (db s)) = Some b"
  shows "\<exists>s3. characterDB_delete i dn s = removeReferences i dn 0 (survivors i b (db s)) s3 \<and>
           novelCompanionDB.characters (db s3) =
             store_delete character.id' i (novelCompanionDB.characters (db s)) \<and>
           novelCompanionDB.novels (db s3) = novelCompanionDB.novels (db s) \<and>
           novelCompanionDB.places (db s3) = novelCompanionDB.places (db s) \<and>
           novelCompanionDB.notes (db s3) = novelCompanionDB.notes (db s) \<and>
           novelCompanionDB.images (db s3) =
             filter (\<lambda>im. image.id' im \<notin> set (character.images b))
               (novelCompanionDB.images (db s))"
proof -
  let ?reqs = "map (Delete Images) (character.images b) @ [Delete Characters i]"
  let ?s2 = "transact [Characters, Images] Readwrite ?reqs (db_read (Get Characters i) s)"
  let ?s3 = "db_read (GetAllFromIndex Characters ByNovel (Some (character.novelId b))) ?s2"
  have del: "\<forall>rq\<in>set ?reqs. isDelete rq" by auto
  have D: "db ?s3 = fold perform ?reqs (db s)"
    by (simp only: db_transact db_db_read)
  have D2: "db ?s3 =
     \<lparr>novelCompanionDB.novels = novelCompanionDB.novels (db s),
      characters = store_delete character.id' i (novelCompanionDB.characters (db s)),
      places = novelCompanionDB.places (db s),
      notes = novelCompanionDB.notes (db s),
      images = filter (\<lambda>im. image.id' im \<notin> set (character.images b))
                 (novelCompanionDB.images (db s))\<rparr>"
    unfolding D fold_deletes [OF del]
    by (auto simp: store_delete_def image_iff intro: filter_cong)
  have sel:
    "novelCompanionDB.characters (db ?s3) =
       store_delete character.id' i (novelCompanionDB.characters (db s))"
    "novelCompanionDB.novels (db ?s3) = novelCompanionDB.novels (db s)"
    "novelCompanionDB.places (db ?s3) = novelCompanionDB.places (db s)"
    "novelCompanionDB.notes (db ?s3) = novelCompanionDB.notes (db s)"
    "novelCompanionDB.images (db ?s3) =
       filter (\<lambda>im. image.id' im \<notin> set (character.images b))
         (novelCompanionDB.images (db s))"
    unfolding D2 by simp_all
  have "characterDB_delete i dn s =
      removeReferences i dn 0
        (index_by_novel character.novelId (character.novelId b)
           (novelCompanionDB.characters (db ?s2))) ?s3"
    using assms
    by (simp only: characterDB_delete_def db_get_character_def db_characters_by_novel_def
        Let_def split_conv option.case db_db_read)
  also have "db ?s2 = db ?s3"
    by (simp only: db_db_read)
  finally have E: "characterDB_delete i dn s =
      removeReferences i dn 0 (survivors i b (db s)) ?s3"
    by (simp only: sel survivors_def)
  show ?thesis
    by (rule exI [of _ ?s3]) (simp only: E sel simp_thms)
qed

lemma survivors_wf:
  "store_wf character.id' (novelCompanionDB.characters d) \<Longrightarrow>
   store_wf character.id' (survivors i b d)"
  by (simp add: survivors_def index_by_novel_wf store_wf_delete)

lemma survivors_set:
  "set (survivors i b d) =
     {c \<in> set (novelCompanionDB.characters d).
        character.id' c \<noteq> i \<and> character.novelId c = character.novelId b}"
  by (auto simp: survivors_def store_delete_def)

lemma characterDB_delete_get:
  assumes wf: "store_wf character.id' (novelCompanionDB.characters (db s))"
    and b: "store_get character.id' i (novelCompanionDB.characters (db s)) = Some b"
  shows "store_get character.id' k (novelCompanionDB.characters (db (characterDB_delete i dn s))) =
     (case store_get character.id' k (novelCompanionDB.characters (db s)) of
        None \<Rightarrow> None
      | Some c \<Rightarrow>
          if k = i then None
          else if character.novelId c = character.novelId b \<and>
                  i \<in> set (character.linkedCharacterIds c)
          then Some (unlinked i (dn (rewrittenBefore i k (survivors i b (db s)))) c)
          else Some c)"
proof -
  let ?chars = "novelCompanionDB.characters (db s)"
  let ?cs = "survivors i b (db s)"
  obtain s3 where E: "characterDB_delete i dn s = removeReferences i dn 0 ?cs s3"
    and C: "novelCompanionDB.characters (db s3) = store_delete character.id' i ?chars"
    using characterDB_delete_present [OF b] by blast
  have wfcs: "store_wf character.id' ?cs" using wf by (rule survivors_wf)
  have G: "store_get character.id' k
             (novelCompanionDB.characters (db (characterDB_delete i dn s))) =
     (case find (\<lambda>c. character.id' c = k) ?cs of
        None \<Rightarrow> store_get character.id' k (store_delete character.id' i ?chars)
      | Some c \<Rightarrow>
          if i \<in> set (character.linkedCharacterIds c)
          then Some (unlinked i (dn (0 + rewrittenBefore i k ?cs)) c)
          else store_get character.id' k (store_delete character.id' i ?chars))"
    unfolding E using removeReferences_get [OF store_wf_distinct [OF wfcs], of k i dn 0 s3]
    by (simp only: C)
  show ?thesis
  proof (cases "store_get character.id' k ?chars")
    case None
    then have "k \<notin> character.id' ` set ?chars" by (simp add: store_get_None_iff)
    then have "find (\<lambda>c. character.id' c = k) ?cs = None"
      by (auto simp: find_None_iff survivors_set)
    with None show ?thesis by (simp add: G store_get_delete)
  next
    case (Some c)
    then have c: "c \<in> set ?chars" "character.id' c = k"
      using store_get_Some_iff [OF wf] by auto
    show ?thesis
    proof (cases "k \<noteq> i \<and> character.novelId c = character.novelId b")
      case True
      then have "c \<in> set ?cs" using c by (simp add: survivors_set)
      then have "find (\<lambda>x. character.id' x = k) ?cs = Some c"
        using find_key_member [OF wfcs, of c] c by simp
      with Some True show ?thesis by (simp add: G store_get_delete)
    next
      case False
      have "find (\<lambda>x. character.id' x = k) ?cs = None"
      proof (rule ccontr)
        assume "find (\<lambda>x. character.id' x = k) ?cs \<noteq> None"
        then obtain c' where "find (\<lambda>x. character.id' x = k) ?cs = Some c'" by auto
        then have "c' \<in> set ?cs" "character.id' c' = k"
          by (auto simp: find_Some_iff)
        then have "c' \<in> set ?chars" "character.id' c' \<noteq> i"
          "character.novelId c' = character.novelId b"
          by (auto simp: survivors_set)
        moreover have "c' = c"
          using store_key_unique [OF wf \<open>c' \<in> set ?chars\<close> c(1)] c(2)
            \<open>character.id' c' = k\<close> by simp
        ultimately show False using False c by simp
      qed
      with Some False show ?thesis by (auto simp: G store_get_delete)
    qed
  qed
qed

lemma characterDB_delete_wf:
  assumes wf: "store_wf character.id' (novelCompanionDB.characters (db s))"
  shows "store_wf character.id' (novelCompanionDB.characters (db (characterDB_delete i dn s)))"
proof (cases "store_get character.id' i (novelCompanionDB.characters (db s))")
  case None
  then show ?thesis using wf by (simp add: characterDB_delete_absent)
next
  case (Some b)
  obtain s3 where E: "characterDB_delete i dn s = removeReferences i dn 0 (survivors i b (db s)) s3"
    and C: "novelCompanionDB.characters (db s3) =
              store_delete character.id' i (novelCompanionDB.characters (db s))"
    using characterDB_delete_present [OF Some] by blast
  show ?thesis
    unfolding E by (rule removeReferences_wf) (simp add: C store_wf_delete wf)
qed

lemma characterDB_delete_others:
  "novelCompanionDB.novels (db (characterDB_delete i dn s)) = novelCompanionDB.novels (db s) \<and>
   novelCompanionDB.places (db (characterDB_delete i dn s)) = novelCompanionDB.places (db s) \<and>
   novelCompanionDB.notes (db (characterDB_delete i dn s)) = novelCompanionDB.notes (db s)"
proof (cases "store_get character.id' i (novelCompanionDB.characters (db s))")
  case None
  then show ?thesis by (simp add: characterDB_delete_absent)
next
  case (Some b)
  obtain s3 where E: "characterDB_delete i dn s = removeReferences i dn 0 (survivors i b (db s)) s3"
    and C: "novelCompanionDB.novels (db s3) = novelCompanionDB.novels (db s)"
      "novelCompanionDB.places (db s3) = novelCompanionDB.places (db s)"
      "novelCompanionDB.notes (db s3) = novelCompanionDB.notes (db s)"
    using characterDB_delete_present [OF Some] by blast
  show ?thesis
    unfolding E using removeReferences_other [of i dn 0 "survivors i b (db s)" s3]
    by (simp add: C)
qed

text \<open>
  Claim C4. Let \<open>b\<close> be the stored character with id \<open>i\<close>. After
  \<^verbatim>\<open>characterDB.delete\<close> of \<open>i\<close> the id \<open>i\<close> is absent from the store, no character
  of \<open>b\<close>'s novel has \<open>i\<close> in its \<^verbatim>\<open>linkedCharacterIds\<close>, and every other character
  \<open>a\<close> of that novel that had \<open>i\<close> there is stored with \<open>i\<close> filtered out and with
  \<^verbatim>\<open>updatedAt\<close> the reading of \<^verbatim>\<open>Date.now()\<close> taken when the loop rewrote it, its
  other fields as they were.
\<close>

theorem cross_reference_cleanup:
  assumes "db_wf (db s)"
    and "store_get character.id' i (novelCompanionDB.characters (db s)) = Some b"
  shows "store_get character.id' i
           (novelCompanionDB.characters (db (characterDB_delete i dn s))) = None \<and>
         (\<forall>c\<in>set (novelCompanionDB.characters (db (characterDB_delete i dn s))).
            character.novelId c = character.novelId b \<longrightarrow>
            i \<notin> set (character.linkedCharacterIds c)) \<and>
         (\<forall>a\<in>set (novelCompanionDB.characters (db s)).
            character.id' a \<noteq> i \<and> character.novelId a = character.novelId b \<and>
            i \<in> set (character.linkedCharacterIds a) \<longrightarrow>
            store_get character.id' (character.id' a)
              (novelCompanionDB.characters (db (characterDB_delete i dn s))) =
            Some (unlinked i (dn (rewrittenBefore i (character.id' a) (survivors i b (db s)))) a))"
proof -
  let ?chars = "novelCompanionDB.characters (db s)"
  let ?after = "novelCompanionDB.characters (db (characterDB_delete i dn s))"
  have wf: "store_wf character.id' ?chars" using assms(1) by (simp add: db_wf_def)
  note G = characterDB_delete_get [OF wf assms(2)]
  have wf': "store_wf character.id' ?after" using wf by (rule characterDB_delete_wf)
  have 1: "store_get character.id' i ?after = None"
    by (simp add: G assms(2))
  have 2: "i \<notin> set (character.linkedCharacterIds c)"
    if c: "c \<in> set ?after" and n: "character.novelId c = character.novelId b" for c
  proof -
    have g: "store_get character.id' (character.id' c) ?after = Some c"
      using store_get_Some_iff [OF wf'] c by simp
    show ?thesis
    proof (cases "store_get character.id' (character.id' c) ?chars")
      case None
      with g show ?thesis by (simp add: G)
    next
      case (Some c0)
      let ?t = "dn (rewrittenBefore i (character.id' c) (survivors i b (db s)))"
      from g Some consider "c = unlinked i ?t c0"
        | "c = c0" "\<not> (character.novelId c0 = character.novelId b \<and>
                          i \<in> set (character.linkedCharacterIds c0))"
        by (auto simp: G split: if_splits)
      then show ?thesis
      proof cases
        case 1
        then have "character.linkedCharacterIds c =
            character.linkedCharacterIds (unlinked i ?t c0)"
          by (rule arg_cong)
        then show ?thesis by (simp add: unlinked_def)
      next
        case 2
        with n show ?thesis by simp
      qed
    qed
  qed
  have 3: "store_get character.id' (character.id' a) ?after =
      Some (unlinked i (dn (rewrittenBefore i (character.id' a) (survivors i b (db s)))) a)"
    if "a \<in> set ?chars" "character.id' a \<noteq> i" "character.novelId a = character.novelId b"
      "i \<in> set (character.linkedCharacterIds a)" for a
  proof -
    have "store_get character.id' (character.id' a) ?chars = Some a"
      using store_get_Some_iff [OF wf] that(1) by simp
    with that show ?thesis by (simp add: G)
  qed
  from 1 2 3 show ?thesis by blast
qed

theorem cross_reference_cleanup_witness:
  "db_wf (db library) \<and>
   store_get character.id' ''c1'' (novelCompanionDB.characters (db library)) = Some paul \<and>
   leto \<in> set (novelCompanionDB.characters (db library)) \<and>
   character.id' leto = ''c2'' \<and> character.novelId leto = character.novelId paul \<and>
   ''c1'' \<in> set (character.linkedCharacterIds leto) \<and>
   store_get character.id' ''c1''
     (novelCompanionDB.characters (db (characterDB_delete ''c1'' (\<lambda>n. 50 + int n) library))) = None \<and>
   store_get character.id' ''c2''
     (novelCompanionDB.characters (db (characterDB_delete ''c1'' (\<lambda>n. 50 + int n) library))) =
     Some (leto\<lparr>character.linkedCharacterIds := [], character.updatedAt := 50\<rparr>)"
proof -
  have h1: "store_get character.id' ''c1'' (novelCompanionDB.characters (db library)) = Some paul"
    by (simp add: store_get_def library_defs)
  have h2: "leto \<in> set (novelCompanionDB.characters (db library))"
    "character.id' leto = ''c2''" "character.novelId leto = character.novelId paul"
    "''c1'' \<in> set (character.linkedCharacterIds leto)"
    by (simp_all add: library_def leto_def paul_def)
  have h3: "unlinked ''c1'' (50 + int (rewrittenBefore ''c1'' ''c2'' (survivors ''c1'' paul (db library))))
              leto = leto\<lparr>character.linkedCharacterIds := [], character.updatedAt := 50\<rparr>"
    by (simp add: unlinked_def rewrittenBefore_def survivors_def index_by_novel_def
        store_delete_def library_defs)
  show ?thesis
    using library_wf h1 h2 h3
      cross_reference_cleanup [OF library_wf h1, of "\<lambda>n. 50 + int n"]
    by auto
qed

text \<open>
  Claim C10. \<^verbatim>\<open>characterDB.delete\<close> of \<open>i\<close> leaves the stores of novels, places and
  notes as they were, so places and notes keep their \<^verbatim>\<open>linkedCharacterIds\<close>. A lookup
  in the store of characters changes only at \<open>i\<close> itself and at the ids of characters
  of the deleted character's novel that had \<open>i\<close> in their \<^verbatim>\<open>linkedCharacterIds\<close>.
\<close>

theorem cleanup_frame:
  assumes "db_wf (db s)"
  shows "novelCompanionDB.novels (db (characterDB_delete i dn s)) = novelCompanionDB.novels (db s) \<and>
         novelCompanionDB.places (db (characterDB_delete i dn s)) = novelCompanionDB.places (db s) \<and>
         novelCompanionDB.notes (db (characterDB_delete i dn s)) = novelCompanionDB.notes (db s) \<and>
         (\<forall>k. store_get character.id' k
                 (novelCompanionDB.characters (db (characterDB_delete i dn s))) \<noteq>
               store_get character.id' k (novelCompanionDB.characters (db s)) \<longrightarrow>
              (\<exists>b. store_get character.id' i (novelCompanionDB.characters (db s)) = Some b \<and>
                 (k = i \<or>
                  (\<exists>c. store_get character.id' k (novelCompanionDB.characters (db s)) = Some c \<and>
                       character.novelId c = character.novelId b \<and>
                       i \<in> set (character.linkedCharacterIds c)))))"
proof -
  let ?chars = "novelCompanionDB.characters (db s)"
  let ?after = "novelCompanionDB.characters (db (characterDB_delete i dn s))"
  have wf: "store_wf character.id' ?chars" using assms(1) by (simp add: db_wf_def)
  have "\<exists>b. store_get character.id' i ?chars = Some b \<and>
          (k = i \<or> (\<exists>c. store_get character.id' k ?chars = Some c \<and>
               character.novelId c = character.novelId b \<and>
               i \<in> set (character.linkedCharacterIds c)))"
    if changed: "store_get character.id' k ?after \<noteq> store_get character.id' k ?chars" for k
  proof (cases "store_get character.id' i ?chars")
    case None
    with changed show ?thesis by (simp add: characterDB_delete_absent)
  next
    case (Some b)
    note G = characterDB_delete_get [OF wf Some, of k dn]
    from changed Some show ?thesis
      by (cases "store_get character.id' k ?chars") (auto simp: G split: if_splits)
  qed
  then show ?thesis using characterDB_delete_others [of i dn s] by blast
qed

theorem cleanup_frame_witness:
  "db_wf (db library) \<and>
   novelCompanionDB.places (db (characterDB_delete ''c1'' (\<lambda>n. 50 + int n) library)) = [arrakis] \<and>
   ''c1'' \<in> set (place.linkedCharacterIds arrakis) \<and>
   novelCompanionDB.notes (db (characterDB_delete ''c1'' (\<lambda>n. 50 + int n) library)) = [memo] \<and>
   ''c1'' \<in> set (note.linkedCharacterIds memo) \<and>
   store_get character.id' ''c3''
     (novelCompanionDB.characters (db (characterDB_delete ''c1'' (\<lambda>n. 50 + int n) library))) =
     Some harriet \<and>
   ''c1'' \<in> set (character.linkedCharacterIds harriet)"
proof -
  have h1: "store_get character.id' ''c1'' (novelCompanionDB.characters (db library)) = Some paul"
    by (simp add: store_get_def library_defs)
  have h2: "store_get character.id' ''c3'' (novelCompanionDB.characters (db library)) = Some harriet"
    by (simp add: store_get_def library_defs)
  have h3: "character.novelId harriet \<noteq> character.novelId paul"
    "''c1'' \<in> set (character.linkedCharacterIds harriet)"
    "''c1'' \<in> set (place.linkedCharacterIds arrakis)"
    "''c1'' \<in> set (note.linkedCharacterIds memo)"
    by (simp_all add: harriet_def paul_def arrakis_def memo_def)
  have h4: "novelCompanionDB.places (db library) = [arrakis]"
    "novelCompanionDB.notes (db library) = [memo]"
    by (simp_all add: library_def)
  note T = cleanup_frame [OF library_wf, of "''c1''" "\<lambda>n. 50 + int n"]
  have h5: "store_get character.id' ''c3''
       (novelCompanionDB.characters (db (characterDB_delete ''c1'' (\<lambda>n. 50 + int n) library))) =
     store_get character.id' ''c3'' (novelCompanionDB.characters (db library))"
  proof (rule ccontr)
    assume "\<not> ?thesis"
    with T obtain b where
      "store_get character.id' ''c1'' (novelCompanionDB.characters (db library)) = Some b"
      "''c3'' = ''c1'' \<or>
       (\<exists>c. store_get character.id' ''c3'' (novelCompanionDB.characters (db library)) = Some c \<and>
            character.novelId c = character.novelId b \<and>
            ''c1'' \<in> set (character.linkedCharacterIds c))"
      by blast
    with h1 h2 h3 show False by auto
  qed
  show ?thesis
    using library_wf h2 h3 h4 h5 T by simp
qed

section \<open>Import\<close>

lemma lastWithKey_Nil [simp]: "lastWithKey key k [] = None"
  by (simp add: lastWithKey_def)

lemma find_snoc:
  "find P (xs @ [x]) = (case find P xs of Some y \<Rightarrow> Some y | None \<Rightarrow> if P x then Some x else None)"
  by (induction xs) auto

lemma lastWithKey_Cons:
  "lastWithKey key k (r # rs) =
     (case lastWithKey key k rs of Some y \<Rightarrow> Some y
      | None \<Rightarrow> if key r = k then Some r else None)"
  by (simp add: lastWithKey_def find_snoc)

lemma store_get_fold_put:
  "store_get key k (fold (store_put key) rs xs) =
     (case lastWithKey key k rs of Some r \<Rightarrow> Some r | None \<Rightarrow> store_get key k xs)"
  by (induction rs arbitrary: xs)
    (auto simp: lastWithKey_Cons store_get_put split: option.splits)

lemma fold_db_write:
  "db (fold (\<lambda>x. db_write (f x)) xs s) = fold (\<lambda>x. perform (f x)) xs (db s)"
  by (induction xs arbitrary: s) simp_all

lemma fold_put_novels:
  "fold (\<lambda>x. perform (PutNovel x)) xs d =
     d\<lparr>novelCompanionDB.novels := fold (store_put novel.id') xs (novelCompanionDB.novels d)\<rparr>"
  by (induction xs arbitrary: d) simp_all

lemma fold_put_characters:
  "fold (\<lambda>x. perform (PutCharacter x)) xs d =
     d\<lparr>novelCompanionDB.characters :=
         fold (store_put character.id') xs (novelCompanionDB.characters d)\<rparr>"
  by (induction xs arbitrary: d) simp_all

lemma fold_put_places:
  "fold (\<lambda>x. perform (PutPlace x)) xs d =
     d\<lparr>novelCompanionDB.places := fold (store_put place.id') xs (novelCompanionDB.places d)\<rparr>"
  by (induction xs arbitrary: d) simp_all

lemma fold_put_notes:
  "fold (\<lambda>x. perform (PutNote x)) xs d =
     d\<lparr>novelCompanionDB.notes := fold (store_put note.id') xs (novelCompanionDB.notes d)\<rparr>"
  by (induction xs arbitrary: d) simp_all

lemma fold_put_images:
  "fold (\<lambda>(i, dataStr). perform (PutImage \<lparr>image.id' = i, data = dataStr\<rparr>)) xs d =
     d\<lparr>novelCompanionDB.images :=
         fold (store_put image.id') (map mkImage xs) (novelCompanionDB.images d)\<rparr>"
  by (induction xs arbitrary: d) (simp_all add: mkImage_def split: prod.splits)

lemma fold_db_write_images:
  "db (fold (\<lambda>(i, dataStr). db_write (PutImage \<lparr>image.id' = i, data = dataStr\<rparr>)) xs s) =
   fold (\<lambda>(i, dataStr). perform (PutImage \<lparr>image.id' = i, data = dataStr\<rparr>)) xs (db s)"
  by (induction xs arbitrary: s) (simp_all split: prod.splits)

lemma importAll_valid:
  assumes "exportData.images dat = Some imgs" "exportData.novels dat = Some ns"
    "exportData.characters dat = Some cs" "exportData.places dat = Some ps"
    "exportData.notes dat = Some nts"
  shows "fst (importAll dat mode s) = Inr ()"
    and "db (snd (importAll dat mode s)) =
           putAll imgs ns cs ps nts (if mode = Overwrite then emptyDB else db s)"
  using assms
  by (simp_all add: importAll_def Let_def fold_db_write fold_db_write_images
      fold_put_novels fold_put_characters fold_put_places fold_put_notes fold_put_images
      putAll_def emptyDB_def)

text \<open>
  Claim C7. For a document that has its five collections, \<^verbatim>\<open>importAll\<close> in merge
  mode completes, and afterwards the lookup of any id in any of the five stores
  gives the document's record with that id (the last one, should the document have
  several) when the document has one, and what the store held before otherwise. So
  a record whose id collides is replaced by the document's, every other record of
  the document is added, and no record is removed.
\<close>

theorem merge_non_destructive:
  assumes "exportData.images dat = Some imgs" and "exportData.novels dat = Some ns"
    and "exportData.characters dat = Some cs" and "exportData.places dat = Some ps"
    and "exportData.notes dat = Some nts"
  shows "fst (importAll dat Merge s) = Inr () \<and>
    store_get novel.id' k (novelCompanionDB.novels (db (snd (importAll dat Merge s)))) =
      (case lastWithKey novel.id' k ns of
         Some r \<Rightarrow> Some r
       | None \<Rightarrow> store_get novel.id' k (novelCompanionDB.novels (db s))) \<and>
    store_get character.id' k (novelCompanionDB.characters (db (snd (importAll dat Merge s)))) =
      (case lastWithKey character.id' k cs of
         Some r \<Rightarrow> Some r
       | None \<Rightarrow> store_get character.id' k (novelCompanionDB.characters (db s))) \<and>
    store_get place.id' k (novelCompanionDB.places (db (snd (importAll dat Merge s)))) =
      (case lastWithKey place.id' k ps of
         Some r \<Rightarrow> Some r
       | None \<Rightarrow> store_get place.id' k (novelCompanionDB.places (db s))) \<and>
    store_get note.id' k (novelCompanionDB.notes (db (snd (importAll dat Merge s)))) =
      (case lastWithKey note.id' k nts of
         Some r \<Rightarrow> Some r
       | None \<Rightarrow> store_get note.id' k (novelCompanionDB.notes (db s))) \<and>
    store_get image.id' k (novelCompanionDB.images (db (snd (importAll dat Merge s)))) =
      (case lastWithKey image.id' k (map mkImage imgs) of
         Some r \<Rightarrow> Some r
       | None \<Rightarrow> store_get image.id' k (novelCompanionDB.images (db s)))"
  using importAll_valid [OF assms, of Merge s]
  by (simp add: putAll_def store_get_fold_put)

theorem merge_non_destructive_witness:
  "store_get novel.id' ''n1'' (novelCompanionDB.novels (db library)) = Some dune \<and>
   store_get novel.id' ''n1'' (novelCompanionDB.novels (db (snd (importAll backup Merge library))))
     = Some duneRevised \<and>
   store_get novel.id' ''n3'' (novelCompanionDB.novels (db library)) = None \<and>
   store_get novel.id' ''n3'' (novelCompanionDB.novels (db (snd (importAll backup Merge library))))
     = Some persuasion \<and>
   store_get novel.id' ''n2'' (novelCompanionDB.novels (db (snd (importAll backup Merge library))))
     = Some emma \<and>
   store_get character.id' ''c1''
     (novelCompanionDB.characters (db (snd (importAll backup Merge library)))) = Some paul \<and>
   store_get image.id' ''i7'' (novelCompanionDB.images (db (snd (importAll backup Merge library))))
     = Some \<lparr>image.id' = ''i7'', data = ''GGGG''\<rparr> \<and>
   store_get image.id' ''i5'' (novelCompanionDB.images (db (snd (importAll backup Merge library))))
     = Some \<lparr>image.id' = ''i5'', data = ''EEEE''\<rparr>"
proof -
  have v: "exportData.images backup = Some [(''i7'', ''GGGG'')]"
    "exportData.novels backup = Some [duneRevised, persuasion]"
    "exportData.characters backup = Some []" "exportData.places backup = Some []"
    "exportData.notes backup = Some []"
    by (simp_all add: backup_def)
  have g: "store_get novel.id' ''n1'' (novelCompanionDB.novels (db library)) = Some dune"
    "store_get novel.id' ''n3'' (novelCompanionDB.novels (db library)) = None"
    "store_get novel.id' ''n2'' (novelCompanionDB.novels (db library)) = Some emma"
    "store_get character.id' ''c1'' (novelCompanionDB.characters (db library)) = Some paul"
    "store_get image.id' ''i7'' (novelCompanionDB.images (db library)) = None"
    "store_get image.id' ''i5'' (novelCompanionDB.images (db library)) =
       Some \<lparr>image.id' = ''i5'', data = ''EEEE''\<rparr>"
    by (simp_all add: store_get_def library_defs)
  have l: "lastWithKey novel.id' ''n1'' [duneRevised, persuasion] = Some duneRevised"
    "lastWithKey novel.id' ''n3'' [duneRevised, persuasion] = Some persuasion"
    "lastWithKey novel.id' ''n2'' [duneRevised, persuasion] = None"
    "lastWithKey image.id' ''i7'' (map mkImage [(''i7'', ''GGGG'')]) =
       Some \<lparr>image.id' = ''i7'', data = ''GGGG''\<rparr>"
    "lastWithKey image.id' ''i5'' (map mkImage [(''i7'', ''GGGG'')]) = None"
    by (simp_all add: lastWithKey_def duneRevised_def persuasion_def mkImage_def)
  have n1: "store_get novel.id' ''n1''
      (novelCompanionDB.novels (db (snd (importAll backup Merge library)))) = Some duneRevised"
    using merge_non_destructive [OF v, where k = "''n1''" and s = library] by (simp add: l)
  have n2: "store_get novel.id' ''n2''
      (novelCompanionDB.novels (db (snd (importAll backup Merge library)))) = Some emma"
    using merge_non_destructive [OF v, where k = "''n2''" and s = library] by (simp add: l g)
  have n3: "store_get novel.id' ''n3''
      (novelCompanionDB.novels (db (snd (importAll backup Merge library)))) = Some persuasion"
    using merge_non_destructive [OF v, where k = "''n3''" and s = library] by (simp add: l)
  have c1: "store_get character.id' ''c1''
      (novelCompanionDB.characters (db (snd (importAll backup Merge library)))) = Some paul"
    using merge_non_destructive [OF v, where k = "''c1''" and s = library] by (simp add: g)
  have i7: "store_get image.id' ''i7''
      (novelCompanionDB.images (db (snd (importAll backup Merge library)))) =
      Some \<lparr>image.id' = ''i7'', data = ''GGGG''\<rparr>"
    using merge_non_destructive [OF v, where k = "''i7''" and s = library] l(4) by simp
  have i5: "store_get image.id' ''i5''
      (novelCompanionDB.images (db (snd (importAll backup Merge library)))) =
      Some \<lparr>image.id' = ''i5'', data = ''EEEE''\<rparr>"
    using merge_non_destructive [OF v, where k = "''i5''" and s = library] l(5) g(6) by simp
  from g(1,2) n1 n2 n3 c1 i7 i5 show ?thesis by simp
qed

lemma importAll_ignores_version:
  "importAll (dat\<lparr>version := v\<rparr>) mode s = importAll dat mode s"
  by (simp add: importAll_def Let_def split: option.splits)

text \<open>
  Claim C2, as the code has it. The check is made by \<^verbatim>\<open>handleImport\<close>, the caller of
  \<^verbatim>\<open>importAll\<close>: for a document whose \<^verbatim>\<open>version\<close> is missing or empty or whose
  \<^verbatim>\<open>novels\<close> is missing it raises before \<^verbatim>\<open>importAll\<close> is called, shows the error
  toast and leaves the connection (the five collections, and the log) as it was.
  A document that passes the check is handed to \<^verbatim>\<open>importAll\<close> in overwrite mode.
  \<^verbatim>\<open>importAll\<close> itself never reads \<^verbatim>\<open>version\<close>.
\<close>

theorem invalid_backup_rejected:
  "(\<not> truthy (exportData.version dat) \<or> exportData.novels dat = None \<longrightarrow>
      handleImport dat s = (ToastError ''Failed to import backup. Invalid file format.'', s)) \<and>
   (truthy (exportData.version dat) \<and> exportData.novels dat \<noteq> None \<longrightarrow>
      snd (handleImport dat s) = snd (importAll dat Overwrite s)) \<and>
   importAll (dat\<lparr>version := v\<rparr>) mode s = importAll dat mode s"
  by (simp add: handleImport_def importAll_ignores_version split: prod.splits sum.splits)

theorem invalid_backup_rejected_witness:
  "\<not> truthy (exportData.version (backup\<lparr>version := None\<rparr>)) \<and>
   handleImport (backup\<lparr>version := None\<rparr>) library =
     (ToastError ''Failed to import backup. Invalid file format.'', library) \<and>
   exportData.novels (backup\<lparr>exportData.novels := None\<rparr>) = None \<and>
   handleImport (backup\<lparr>exportData.novels := None\<rparr>) library =
     (ToastError ''Failed to import backup. Invalid file format.'', library) \<and>
   truthy (exportData.version backup) \<and> exportData.novels backup \<noteq> None \<and>
   snd (handleImport backup library) = snd (importAll backup Overwrite library)"
  using invalid_backup_rejected [of "backup\<lparr>version := None\<rparr>" library None Merge]
    invalid_backup_rejected [of "backup\<lparr>exportData.novels := None\<rparr>" library None Merge]
    invalid_backup_rejected [of backup library None Merge]
  by (simp add: truthy_def backup_def)

text \<open>
  Claim C2 as stated fails for \<^verbatim>\<open>importAll\<close>. Without \<^verbatim>\<open>version\<close>, the merge import
  completes and changes the novels. Without \<^verbatim>\<open>novels\<close>, the overwrite import raises
  only once the five stores are cleared and the images of the document are written.
\<close>

theorem importAll_unchecked_counterexample:
  "exportData.version (backup\<lparr>version := None\<rparr>) = None \<and>
   fst (importAll (backup\<lparr>version := None\<rparr>) Merge library) = Inr () \<and>
   novelCompanionDB.novels (db (snd (importAll (backup\<lparr>version := None\<rparr>) Merge library))) =
     [duneRevised, emma, persuasion] \<and>
   novelCompanionDB.novels (db library) = [dune, emma] \<and>
   exportData.novels (backup\<lparr>exportData.novels := None\<rparr>) = None \<and>
   fst (importAll (backup\<lparr>exportData.novels := None\<rparr>) Overwrite library) = Inl TypeError \<and>
   db (snd (importAll (backup\<lparr>exportData.novels := None\<rparr>) Overwrite library)) =
     \<lparr>novelCompanionDB.novels = [], characters = [], places = [], notes = [],
      images = [\<lparr>image.id' = ''i7'', data = ''GGGG''\<rparr>]\<rparr> \<and>
   novelCompanionDB.characters (db library) = [paul, leto, harriet]"
  by (simp add: importAll_def backup_def library_def duneRevised_def persuasion_def
      dune_def emma_def)

section \<open>Export\<close>

lemma set_setAdd [simp]: "set (setAdd ids x) = insert x (set ids)"
  by (auto simp: setAdd_def)

lemma distinct_setAdd [simp]: "distinct (setAdd ids x) = distinct ids"
  by (auto simp: setAdd_def)

lemma set_fold_setAdd [simp]: "set (fold (\<lambda>x ids'. setAdd ids' x) xs ids) = set ids \<union> set xs"
  by (induction xs arbitrary: ids) auto

lemma distinct_fold_setAdd [simp]:
  "distinct (fold (\<lambda>x ids'. setAdd ids' x) xs ids) = distinct ids"
  by (induction xs arbitrary: ids) auto

lemma set_fold_character_images:
  "set (fold (\<lambda>c ids. fold (\<lambda>x ids'. setAdd ids' x) (character.images c) ids) cs ids) =
     set ids \<union> set (concat (map character.images cs))"
  by (induction cs arbitrary: ids) auto

lemma distinct_fold_character_images:
  "distinct (fold (\<lambda>c ids. fold (\<lambda>x ids'. setAdd ids' x) (character.images c) ids) cs ids) =
     distinct ids"
  by (induction cs arbitrary: ids) auto

lemma set_fold_place_images:
  "set (fold (\<lambda>p ids. fold (\<lambda>x ids'. setAdd ids' x) (place.images p) ids) ps ids) =
     set ids \<union> set (concat (map place.images ps))"
  by (induction ps arbitrary: ids) auto

lemma distinct_fold_place_images:
  "distinct (fold (\<lambda>p ids. fold (\<lambda>x ids'. setAdd ids' x) (place.images p) ids) ps ids) =
     distinct ids"
  by (induction ps arbitrary: ids) auto

lemma set_fold_covers:
  "set (fold (\<lambda>n ids. case novel.coverImage n of
                          None \<Rightarrow> ids
                        | Some x \<Rightarrow> if x \<noteq> [] then setAdd ids x else ids) ns ids) =
     set ids \<union> {x \<in> set (List.map_filter novel.coverImage ns). x \<noteq> []}"
  by (induction ns arbitrary: ids) (auto simp: List.map_filter_simps split: option.splits)

lemma distinct_fold_covers:
  "distinct (fold (\<lambda>n ids. case novel.coverImage n of
                          None \<Rightarrow> ids
                        | Some x \<Rightarrow> if x \<noteq> [] then setAdd ids x else ids) ns ids) =
     distinct ids"
  by (induction ns arbitrary: ids) (auto split: option.splits)

lemma set_collectImageIds:
  "set (collectImageIds ns cs ps) =
     set (concat (map character.images cs)) \<union> set (concat (map place.images ps)) \<union>
     {x \<in> set (List.map_filter novel.coverImage ns). x \<noteq> []}"
  by (simp add: collectImageIds_def Let_def set_fold_covers set_fold_place_images
      set_fold_character_images)

lemma distinct_collectImageIds: "distinct (collectImageIds ns cs ps)"
  by (simp add: collectImageIds_def Let_def distinct_fold_covers distinct_fold_place_images
      distinct_fold_character_images)

lemma collectImageIds_referenced:
  "set (collectImageIds ns cs ps) \<subseteq> set (referencedImageIds ns cs ps)"
  by (auto simp: set_collectImageIds referencedImageIds_def)

lemma imageEntry_Some:
  "imageEntry d i = Some e \<longleftrightarrow>
     (\<exists>im. store_get image.id' i (novelCompanionDB.images d) = Some im \<and>
           image.data im \<noteq> [] \<and> e = (i, image.data im))"
  by (cases "store_get image.id' i (novelCompanionDB.images d)") (auto simp: imageEntry_def)

lemma mem_map_filter_imageEntry:
  "e \<in> set (List.map_filter (imageEntry d) ids) \<longleftrightarrow>
     (\<exists>i\<in>set ids. imageEntry d i = Some e)"
proof (induction ids)
  case Nil
  show ?case by (simp add: List.map_filter_simps)
next
  case (Cons i ids)
  show ?case
    by (cases "imageEntry d i") (auto simp: List.map_filter_simps Cons.IH)
qed

lemma set_insertIndexKey [simp]: "set (insertIndexKey k v obj) = insert (k, v) (set obj)"
  by (induction obj) auto

lemma distinct_insertIndexKey:
  "k \<notin> set (map fst obj) \<Longrightarrow> distinct (map fst obj) \<Longrightarrow>
   distinct (map fst (insertIndexKey k v obj))"
  by (induction obj) auto

lemma objectSet_replace_keys:
  "map fst (map (\<lambda>p. if fst p = k then (k, v) else p) obj) = map fst obj"
  by (induction obj) auto

lemma distinct_objectSet:
  "distinct (map fst obj) \<Longrightarrow> distinct (map fst (objectSet obj k v))"
proof -
  assume d: "distinct (map fst obj)"
  show ?thesis
  proof (cases "k = ''__proto__''")
    case True
    then show ?thesis using d by (simp add: objectSet_def)
  next
    case False
    show ?thesis
    proof (cases "k \<in> set (map fst obj)")
      case True
      have "objectSet obj k v = map (\<lambda>p. if fst p = k then (k, v) else p) obj"
        using True False by (simp add: objectSet_def)
      then show ?thesis using d by (simp only: objectSet_replace_keys)
    next
      case notin: False
      show ?thesis
      proof (cases "isArrayIndex k")
        case True
        have "objectSet obj k v = insertIndexKey k v obj"
          using True False notin by (simp add: objectSet_def)
        then show ?thesis using distinct_insertIndexKey [OF notin d] by simp
      next
        case noidx: False
        have "objectSet obj k v = obj @ [(k, v)]"
          using noidx False notin by (simp add: objectSet_def)
        then show ?thesis using notin d by simp
      qed
    qed
  qed
qed

lemma set_objectSet:
  assumes "\<forall>p\<in>set obj. fst p = k \<longrightarrow> snd p = v"
  shows "set (objectSet obj k v) =
           (if k = ''__proto__'' then set obj else insert (k, v) (set obj))"
proof (cases "k \<in> set (map fst obj)")
  case True
  have "map (\<lambda>p. if fst p = k then (k, v) else p) obj = obj"
    using assms by (intro map_idI) (auto simp: prod_eq_iff)
  moreover have "(k, v) \<in> set obj"
    using True assms by (auto simp: prod_eq_iff)
  ultimately show ?thesis using True by (auto simp: objectSet_def)
next
  case False
  then show ?thesis by (auto simp: objectSet_def)
qed

lemma set_assignAll:
  assumes "\<forall>p\<in>set entries. snd p = f (fst p)" and "\<forall>p\<in>set obj. snd p = f (fst p)"
  shows "set (assignAll entries obj) = set obj \<union> {e \<in> set entries. fst e \<noteq> ''__proto__''}"
  using assms
proof (induction entries arbitrary: obj)
  case Nil
  show ?case by (simp add: assignAll_def)
next
  case (Cons e entries)
  have e: "snd e = f (fst e)" using Cons.prems(1) by simp
  have a: "\<forall>p\<in>set obj. fst p = fst e \<longrightarrow> snd p = snd e"
    using Cons.prems(2) e by simp
  have s: "set (objectSet obj (fst e) (snd e)) =
      (if fst e = ''__proto__'' then set obj else insert e (set obj))"
    using set_objectSet [OF a] by simp
  have r: "\<forall>p\<in>set entries. snd p = f (fst p)" using Cons.prems(1) by simp
  have o: "\<forall>p\<in>set (objectSet obj (fst e) (snd e)). snd p = f (fst p)"
  proof
    fix p assume "p \<in> set (objectSet obj (fst e) (snd e))"
    then have "p \<in> set obj \<or> p = e" unfolding s by (auto split: if_splits)
    then show "snd p = f (fst p)" using Cons.prems(2) e by blast
  qed
  have "set (assignAll entries (objectSet obj (fst e) (snd e))) =
       set (objectSet obj (fst e) (snd e)) \<union> {e \<in> set entries. fst e \<noteq> ''__proto__''}"
    using Cons.IH [OF r o] .
  moreover have "assignAll (e # entries) obj = assignAll entries (objectSet obj (fst e) (snd e))"
    by (simp add: assignAll_def)
  ultimately show ?case unfolding s by (cases "fst e = ''__proto__''") auto
qed

lemma distinct_assignAll:
  "distinct (map fst obj) \<Longrightarrow> distinct (map fst (assignAll entries obj))"
  unfolding assignAll_def
  by (induction entries arbitrary: obj) (simp_all add: distinct_objectSet del: set_map)

lemma fetchImages_eq:
  "fst (fetchImages ids acc s) = assignAll (List.map_filter (imageEntry (db s)) ids) acc \<and>
   db (snd (fetchImages ids acc s)) = db s"
proof (induction ids arbitrary: acc s)
  case Nil
  show ?case by (simp add: List.map_filter_simps assignAll_def)
next
  case (Cons i ids)
  show ?case
    by (cases "store_get image.id' i (novelCompanionDB.images (db s))")
      (simp_all add: imageDB_get_def db_get_image_def Cons.IH List.map_filter_simps
        imageEntry_def assignAll_def)
qed

lemma exportAll_doc:
  "fst (exportAll now s) =
     \<lparr>version = Some ''1.0'', exportedAt = Some now,
      novels = Some (novelCompanionDB.novels (db s)),
      characters = Some (novelCompanionDB.characters (db s)),
      places = Some (novelCompanionDB.places (db s)),
      notes = Some (novelCompanionDB.notes (db s)),
      images = Some (assignAll (List.map_filter (imageEntry (db s))
                 (collectImageIds (novelCompanionDB.novels (db s))
                    (novelCompanionDB.characters (db s)) (novelCompanionDB.places (db s)))) [])\<rparr>"
  by (simp add: exportAll_def db_getAll_novels_def db_getAll_characters_def db_getAll_places_def
      db_getAll_notes_def Let_def split_beta fetchImages_eq)

lemma set_exported_entries:
  "set (assignAll (List.map_filter (imageEntry d) ids) []) =
     {e \<in> set (List.map_filter (imageEntry d) ids). fst e \<noteq> ''__proto__''}"
proof -
  let ?f = "\<lambda>x. case store_get image.id' x (novelCompanionDB.images d) of
                   None \<Rightarrow> [] | Some im \<Rightarrow> image.data im"
  have "\<forall>p\<in>set (List.map_filter (imageEntry d) ids). snd p = ?f (fst p)"
    by (auto simp: mem_map_filter_imageEntry imageEntry_Some)
  from set_assignAll [OF this, of "[]"] show ?thesis by simp
qed

lemma exported_keys:
  "set (map fst (assignAll (List.map_filter (imageEntry d) ids) [])) =
     {x \<in> set ids. (\<exists>im. store_get image.id' x (novelCompanionDB.images d) = Some im \<and>
                         image.data im \<noteq> []) \<and> x \<noteq> ''__proto__''}"
proof (intro set_eqI iffI)
  fix x
  assume "x \<in> set (map fst (assignAll (List.map_filter (imageEntry d) ids) []))"
  then obtain e where "e \<in> set (assignAll (List.map_filter (imageEntry d) ids) [])" "fst e = x"
    by auto
  then have "e \<in> set (List.map_filter (imageEntry d) ids)" "x \<noteq> ''__proto__''" "fst e = x"
    by (simp_all add: set_exported_entries)
  then show "x \<in> {x \<in> set ids. (\<exists>im. store_get image.id' x (novelCompanionDB.images d) = Some im \<and>
                         image.data im \<noteq> []) \<and> x \<noteq> ''__proto__''}"
    by (auto simp: mem_map_filter_imageEntry imageEntry_Some)
next
  fix x
  assume "x \<in> {x \<in> set ids. (\<exists>im. store_get image.id' x (novelCompanionDB.images d) = Some im \<and>
                         image.data im \<noteq> []) \<and> x \<noteq> ''__proto__''}"
  then obtain im where x: "x \<in> set ids" "x \<noteq> ''__proto__''"
    "store_get image.id' x (novelCompanionDB.images d) = Some im" "image.data im \<noteq> []"
    by auto
  then have "imageEntry d x = Some (x, image.data im)" by (simp add: imageEntry_Some)
  with x(1) have "(x, image.data im) \<in> set (List.map_filter (imageEntry d) ids)"
    unfolding mem_map_filter_imageEntry by blast
  with x(2) have "(x, image.data im) \<in> set (assignAll (List.map_filter (imageEntry d) ids) [])"
    by (simp add: set_exported_entries)
  then show "x \<in> set (map fst (assignAll (List.map_filter (imageEntry d) ids) []))"
    by force
qed

lemma exported_values:
  "set (assignAll (List.map_filter (imageEntry d) ids) []) =
     {(x, dat). x \<in> set (map fst (assignAll (List.map_filter (imageEntry d) ids) [])) \<and>
        (\<exists>im. store_get image.id' x (novelCompanionDB.images d) = Some im \<and> image.data im = dat)}"
proof (intro set_eqI iffI)
  fix e
  assume e: "e \<in> set (assignAll (List.map_filter (imageEntry d) ids) [])"
  then have "e \<in> set (List.map_filter (imageEntry d) ids)"
    by (simp add: set_exported_entries)
  then obtain im where "store_get image.id' (fst e) (novelCompanionDB.images d) = Some im"
    "snd e = image.data im"
    by (auto simp: mem_map_filter_imageEntry imageEntry_Some)
  moreover have "fst e \<in> set (map fst (assignAll (List.map_filter (imageEntry d) ids) []))"
    using e by simp
  ultimately show "e \<in> {(x, dat).
      x \<in> set (map fst (assignAll (List.map_filter (imageEntry d) ids) [])) \<and>
      (\<exists>im. store_get image.id' x (novelCompanionDB.images d) = Some im \<and> image.data im = dat)}"
    by (simp add: case_prod_beta del: set_map)
next
  fix e
  assume "e \<in> {(x, dat).
      x \<in> set (map fst (assignAll (List.map_filter (imageEntry d) ids) [])) \<and>
      (\<exists>im. store_get image.id' x (novelCompanionDB.images d) = Some im \<and> image.data im = dat)}"
  then obtain im where k: "fst e \<in> set (map fst (assignAll (List.map_filter (imageEntry d) ids) []))"
    and g: "store_get image.id' (fst e) (novelCompanionDB.images d) = Some im"
    and v: "image.data im = snd e"
    by (auto simp: case_prod_beta simp del: set_map)
  from k have "fst e \<in> set ids" "image.data im \<noteq> []" "fst e \<noteq> ''__proto__''"
    using g unfolding exported_keys by auto
  then have "imageEntry d (fst e) = Some e"
    using g v by (simp add: imageEntry_Some prod_eq_iff)
  with \<open>fst e \<in> set ids\<close> have "e \<in> set (List.map_filter (imageEntry d) ids)"
    unfolding mem_map_filter_imageEntry by blast
  with \<open>fst e \<noteq> ''__proto__''\<close> show "e \<in> set (assignAll (List.map_filter (imageEntry d) ids) [])"
    by (simp add: set_exported_entries)
qed

lemma library_collected:
  "collectImageIds (novelCompanionDB.novels (db library)) (novelCompanionDB.characters (db library))
     (novelCompanionDB.places (db library)) = [''i1'', ''i4'', ''i9'', ''i2'', ''i3'']"
  by (simp add: collectImageIds_def setAdd_def library_defs)

lemma not_index_i [simp]: "\<not> isArrayIndex (CHR ''i'' # k)"
  by (simp add: isArrayIndex_def isDigit_def)

lemma library_exported_images:
  "exportData.images (fst (exportAll 100 library)) =
     Some [(''i1'', ''AAAA''), (''i2'', ''BBBB''), (''i3'', ''CCCC'')]"
  unfolding exportAll_doc library_collected
  by (simp add: List.map_filter_simps imageEntry_def store_get_def library_defs assignAll_def
      objectSet_def)

text \<open>
  The order of the properties of the object: the array indices come first, in
  numeric order, whatever the order of the assignments; an assignment to an existing
  key keeps its place; \<^verbatim>\<open>007\<close> is no array index.
\<close>

lemma object_order_example:
  "assignAll [(''b'', ''x''), (''10'', ''y''), (''9'', ''z''), (''007'', ''u''), (''b'', ''w'')] [] =
     [(''9'', ''z''), (''10'', ''y''), (''b'', ''w''), (''007'', ''u'')]"
  by (simp add: assignAll_def objectSet_def isArrayIndex_def isDigit_def indexValue_def)

text \<open>
  An image whose id is \<^verbatim>\<open>__proto__\<close> (the store can hold one after the import of a
  document with that key): the export reads it, the assignment adds no property to
  the object, and the import of the exported document does not restore it.
\<close>

lemma protoConn_imported:
  "handleImport protoBackup freshConn =
     (ToastSuccess ''Backup imported! Refreshing...'',
      snd (importAll protoBackup Overwrite freshConn)) \<and>
   db (snd (importAll protoBackup Overwrite freshConn)) = db protoConn"
  by (simp add: handleImport_def truthy_def importAll_def protoBackup_def protoConn_def
      freshConn_def emptyDB_def db_write_def transact_def paul_def Let_def)

lemma export_proto_example:
  "db_wf (db protoConn) \<and>
   exportData.characters (fst (exportAll 100 protoConn)) =
     Some [paul\<lparr>character.images := [''__proto__'', ''i1'']\<rparr>] \<and>
   store_get image.id' ''__proto__'' (novelCompanionDB.images (db protoConn)) =
     Some \<lparr>image.id' = ''__proto__'', data = ''PPPP''\<rparr> \<and>
   exportData.images (fst (exportAll 100 protoConn)) = Some [(''i1'', ''AAAA'')] \<and>
   novelCompanionDB.images (db (snd (importAll (fst (exportAll 100 protoConn)) Overwrite freshConn)))
     = [\<lparr>image.id' = ''i1'', data = ''AAAA''\<rparr>]"
  by (simp add: exportAll_def db_getAll_novels_def db_getAll_characters_def db_getAll_places_def
      db_getAll_notes_def collectImageIds_def setAdd_def imageDB_get_def db_get_image_def
      db_read_def db_write_def transact_def importAll_def store_get_def freshConn_def emptyDB_def
      protoConn_def paul_def Let_def objectSet_def db_wf_def store_wf_def)

text \<open>
  Claim C8, as the code has it. The keys of the \<^verbatim>\<open>images\<close> map of the exported
  document are distinct, and, the id \<^verbatim>\<open>__proto__\<close> apart, they are exactly the ids
  that occur in the \<^verbatim>\<open>images\<close> list of an exported character or place, or as the
  non-empty \<^verbatim>\<open>coverImage\<close> of an exported novel, and whose image record is in the
  store with data that is not empty. Every key is an id the exported entities refer
  to (no orphan key), and the value at a key is the data of the stored image.
\<close>

theorem export_image_map:
  "exportData.novels (fst (exportAll now s)) = Some (novelCompanionDB.novels (db s)) \<and>
   exportData.characters (fst (exportAll now s)) = Some (novelCompanionDB.characters (db s)) \<and>
   exportData.places (fst (exportAll now s)) = Some (novelCompanionDB.places (db s)) \<and>
   (\<exists>imgs. exportData.images (fst (exportAll now s)) = Some imgs \<and>
      distinct (map fst imgs) \<and>
      {x \<in> set (map fst imgs). x \<noteq> ''__proto__''} =
        {x \<in> set (concat (map character.images (novelCompanionDB.characters (db s)))) \<union>
              set (concat (map place.images (novelCompanionDB.places (db s)))) \<union>
              {x \<in> set (List.map_filter novel.coverImage (novelCompanionDB.novels (db s))).
                 x \<noteq> []}.
           (\<exists>im. store_get image.id' x (novelCompanionDB.images (db s)) = Some im \<and>
                 image.data im \<noteq> []) \<and>
           x \<noteq> ''__proto__''} \<and>
      set (map fst imgs) \<subseteq>
        set (referencedImageIds (novelCompanionDB.novels (db s))
               (novelCompanionDB.characters (db s)) (novelCompanionDB.places (db s))) \<and>
      set imgs =
        {(x, dat). x \<in> set (map fst imgs) \<and>
           (\<exists>im. store_get image.id' x (novelCompanionDB.images (db s)) = Some im \<and>
                 image.data im = dat)})"
proof -
  let ?ids = "collectImageIds (novelCompanionDB.novels (db s))
                (novelCompanionDB.characters (db s)) (novelCompanionDB.places (db s))"
  let ?imgs = "assignAll (List.map_filter (imageEntry (db s)) ?ids) []"
  have d: "distinct (map fst ?imgs)"
    by (rule distinct_assignAll) simp
  note k = exported_keys [of "db s" ?ids]
  have k': "{x \<in> set (map fst ?imgs). x \<noteq> ''__proto__''} =
      {x \<in> set ?ids. (\<exists>im. store_get image.id' x (novelCompanionDB.images (db s)) = Some im \<and>
                           image.data im \<noteq> []) \<and> x \<noteq> ''__proto__''}"
    unfolding k by blast
  have r: "set (map fst ?imgs) \<subseteq>
      set (referencedImageIds (novelCompanionDB.novels (db s))
             (novelCompanionDB.characters (db s)) (novelCompanionDB.places (db s)))"
    unfolding k using collectImageIds_referenced by blast
  note v = exported_values [of "db s" ?ids]
  have i: "exportData.images (fst (exportAll now s)) = Some ?imgs"
    "exportData.novels (fst (exportAll now s)) = Some (novelCompanionDB.novels (db s))"
    "exportData.characters (fst (exportAll now s)) = Some (novelCompanionDB.characters (db s))"
    "exportData.places (fst (exportAll now s)) = Some (novelCompanionDB.places (db s))"
    by (simp_all add: exportAll_doc)
  from i(1) d k' [unfolded set_collectImageIds] r v
  have "\<exists>imgs. exportData.images (fst (exportAll now s)) = Some imgs \<and>
      distinct (map fst imgs) \<and>
      {x \<in> set (map fst imgs). x \<noteq> ''__proto__''} =
        {x \<in> set (concat (map character.images (novelCompanionDB.characters (db s)))) \<union>
              set (concat (map place.images (novelCompanionDB.places (db s)))) \<union>
              {x \<in> set (List.map_filter novel.coverImage (novelCompanionDB.novels (db s))).
                 x \<noteq> []}.
           (\<exists>im. store_get image.id' x (novelCompanionDB.images (db s)) = Some im \<and>
                 image.data im \<noteq> []) \<and>
           x \<noteq> ''__proto__''} \<and>
      set (map fst imgs) \<subseteq>
        set (referencedImageIds (novelCompanionDB.novels (db s))
               (novelCompanionDB.characters (db s)) (novelCompanionDB.places (db s))) \<and>
      set imgs =
        {(x, dat). x \<in> set (map fst imgs) \<and>
           (\<exists>im. store_get image.id' x (novelCompanionDB.images (db s)) = Some im \<and>
                 image.data im = dat)}"
    by (intro exI [of _ ?imgs] conjI)
  with i(2-4) show ?thesis by (intro conjI)
qed

theorem export_image_map_witness:
  "exportData.images (fst (exportAll 100 library)) =
     Some [(''i1'', ''AAAA''), (''i2'', ''BBBB''), (''i3'', ''CCCC'')] \<and>
   set (map fst [(''i1'', ''AAAA''), (''i2'', ''BBBB''), (''i3'', ''CCCC'')]) \<subseteq>
     set (referencedImageIds (novelCompanionDB.novels (db library))
            (novelCompanionDB.characters (db library)) (novelCompanionDB.places (db library)))"
proof -
  obtain imgs where i: "exportData.images (fst (exportAll 100 library)) = Some imgs"
    and s: "set (map fst imgs) \<subseteq>
      set (referencedImageIds (novelCompanionDB.novels (db library))
            (novelCompanionDB.characters (db library)) (novelCompanionDB.places (db library)))"
    using export_image_map [of 100 library] by (elim conjE exE) (rule that)
  have "imgs = [(''i1'', ''AAAA''), (''i2'', ''BBBB''), (''i3'', ''CCCC'')]"
    using i library_exported_images by simp
  with s library_exported_images show ?thesis by (intro conjI) simp_all
qed

text \<open>
  Claim C8 as stated fails: Leto's image \<open>i9\<close> is referred to by an exported
  character and is no key of the exported map (its record is missing), and neither
  is Paul's \<open>i4\<close> (its data is empty).
\<close>

text \<open>
  Claim C8 as stated fails: Leto's image \<open>i9\<close> is referred to by an exported
  character and is no key of the exported map (its record is missing), and neither
  is Paul's \<open>i4\<close> (its data is empty).
\<close>

theorem export_image_map_counterexample:
  "exportData.images (fst (exportAll 100 library)) =
     Some [(''i1'', ''AAAA''), (''i2'', ''BBBB''), (''i3'', ''CCCC'')] \<and>
   exportData.novels (fst (exportAll 100 library)) = Some [dune, emma] \<and>
   exportData.characters (fst (exportAll 100 library)) = Some [paul, leto, harriet] \<and>
   exportData.places (fst (exportAll 100 library)) = Some [arrakis] \<and>
   referencedImageIds [dune, emma] [paul, leto, harriet] [arrakis] =
     [''i1'', ''i4'', ''i9'', ''i2'', ''i3''] \<and>
   ''i9'' \<in> set (referencedImageIds [dune, emma] [paul, leto, harriet] [arrakis]) \<and>
   ''i9'' \<notin> set (map fst [(''i1'', ''AAAA''), (''i2'', ''BBBB''), (''i3'', ''CCCC'')])"
proof -
  have d: "exportData.novels (fst (exportAll 100 library)) = Some [dune, emma]"
    "exportData.characters (fst (exportAll 100 library)) = Some [paul, leto, harriet]"
    "exportData.places (fst (exportAll 100 library)) = Some [arrakis]"
    by (simp_all add: exportAll_doc library_def)
  have r: "referencedImageIds [dune, emma] [paul, leto, harriet] [arrakis] =
     [''i1'', ''i4'', ''i9'', ''i2'', ''i3'']"
    by (simp add: referencedImageIds_def List.map_filter_simps library_defs)
  have m: "''i9'' \<in> set (referencedImageIds [dune, emma] [paul, leto, harriet] [arrakis])"
    unfolding r by simp
  have n: "''i9'' \<notin> set (map fst [(''i1'', ''AAAA''), (''i2'', ''BBBB''), (''i3'', ''CCCC'')])"
    by simp
  from library_exported_images d r m n show ?thesis by (intro conjI)
qed

section \<open>Export followed by import\<close>

lemma lastWithKey_Some_iff:
  assumes "\<forall>a\<in>set rs. \<forall>b\<in>set rs. key a = key b \<longrightarrow> a = b"
  shows "lastWithKey key k rs = Some r \<longleftrightarrow> r \<in> set rs \<and> key r = k"
proof
  assume "lastWithKey key k rs = Some r"
  then show "r \<in> set rs \<and> key r = k"
    using find_SomeD [of "\<lambda>x. key x = k" "rev rs" r] by (simp add: lastWithKey_def)
next
  assume r: "r \<in> set rs \<and> key r = k"
  then have "find (\<lambda>x. key x = k) (rev rs) \<noteq> None"
    by (auto simp: find_None_iff)
  then obtain r' where f: "find (\<lambda>x. key x = k) (rev rs) = Some r'" by auto
  then have "r' \<in> set rs" "key r' = k"
    using find_SomeD [of "\<lambda>x. key x = k" "rev rs" r'] by simp_all
  with r assms have "r' = r" by blast
  with f show "lastWithKey key k rs = Some r" by (simp add: lastWithKey_def)
qed

lemma mkImage_entry:
  assumes "store_get image.id' x imgs = Some im"
  shows "mkImage (x, image.data im) = im"
proof -
  have "image.id' im = x"
    using find_SomeD [of "\<lambda>r. image.id' r = x" imgs im] assms by (simp add: store_get_def)
  then show ?thesis by (simp add: mkImage_def)
qed

lemma set_exported_images:
  assumes wf: "store_wf image.id' (novelCompanionDB.images d)"
  shows "set (map mkImage (assignAll (List.map_filter (imageEntry d) ids) [])) =
           {im \<in> set (novelCompanionDB.images d).
              image.id' im \<in> set ids \<and> image.data im \<noteq> [] \<and> image.id' im \<noteq> ''__proto__''}"
proof (intro set_eqI iffI)
  fix r
  assume "r \<in> set (map mkImage (assignAll (List.map_filter (imageEntry d) ids) []))"
  then obtain e where e0: "e \<in> set (assignAll (List.map_filter (imageEntry d) ids) [])"
    and e2: "r = mkImage e"
    by auto
  from e0 have e1: "e \<in> set (List.map_filter (imageEntry d) ids)" and np: "fst e \<noteq> ''__proto__''"
    by (simp_all add: set_exported_entries)
  from e1 obtain i im where i: "i \<in> set ids"
    "store_get image.id' i (novelCompanionDB.images d) = Some im" "image.data im \<noteq> []"
    "e = (i, image.data im)"
    by (auto simp: mem_map_filter_imageEntry imageEntry_Some)
  have "r = im" using e2 i(4) mkImage_entry [OF i(2)] by simp
  moreover have "im \<in> set (novelCompanionDB.images d)" "image.id' im = i"
    using store_get_Some_iff [OF wf, of i im] i(2) by simp_all
  moreover have "i \<noteq> ''__proto__''" using np i(4) by simp
  ultimately show "r \<in> {im \<in> set (novelCompanionDB.images d).
      image.id' im \<in> set ids \<and> image.data im \<noteq> [] \<and> image.id' im \<noteq> ''__proto__''}"
    using i by simp
next
  fix r
  assume "r \<in> {im \<in> set (novelCompanionDB.images d).
      image.id' im \<in> set ids \<and> image.data im \<noteq> [] \<and> image.id' im \<noteq> ''__proto__''}"
  then have r: "r \<in> set (novelCompanionDB.images d)" "image.id' r \<in> set ids"
    "image.data r \<noteq> []" "image.id' r \<noteq> ''__proto__''" by simp_all
  have g: "store_get image.id' (image.id' r) (novelCompanionDB.images d) = Some r"
    using store_get_Some_iff [OF wf, of "image.id' r" r] r(1) by simp
  then have "imageEntry d (image.id' r) = Some (image.id' r, image.data r)"
    using r(3) by (simp add: imageEntry_Some)
  then have "(image.id' r, image.data r) \<in> set (List.map_filter (imageEntry d) ids)"
    using r(2) by (auto simp: mem_map_filter_imageEntry)
  then have "(image.id' r, image.data r) \<in> set (assignAll (List.map_filter (imageEntry d) ids) [])"
    using r(4) by (simp add: set_exported_entries)
  moreover have "mkImage (image.id' r, image.data r) = r" by (simp add: mkImage_def)
  ultimately show "r \<in> set (map mkImage (assignAll (List.map_filter (imageEntry d) ids) []))"
    by (metis image_eqI set_map)
qed

lemma import_exported_images:
  assumes wf: "store_wf image.id' (novelCompanionDB.images d)"
  shows "fold (store_put image.id')
           (map mkImage (assignAll (List.map_filter (imageEntry d) ids) [])) [] =
           filter (\<lambda>im. image.id' im \<in> set ids \<and> image.data im \<noteq> [] \<and>
                        image.id' im \<noteq> ''__proto__'')
             (novelCompanionDB.images d)"
proof (rule store_wf_unique [of image.id'])
  let ?rs = "map mkImage (assignAll (List.map_filter (imageEntry d) ids) [])"
  let ?L = "fold (store_put image.id') ?rs []"
  let ?R = "filter (\<lambda>im. image.id' im \<in> set ids \<and> image.data im \<noteq> [] \<and>
                         image.id' im \<noteq> ''__proto__'')
              (novelCompanionDB.images d)"
  show wfL: "store_wf image.id' ?L" by (simp add: store_wf_fold_put)
  show wfR: "store_wf image.id' ?R" using wf by (rule store_wf_filter)
  have S: "set ?rs = set ?R" using set_exported_images [OF wf, of ids] by simp
  have u: "\<forall>a\<in>set ?rs. \<forall>b\<in>set ?rs. image.id' a = image.id' b \<longrightarrow> a = b"
    unfolding S using store_key_unique [OF wfR] by blast
  show "set ?L = set ?R"
  proof (intro set_eqI)
    fix r
    have "r \<in> set ?L \<longleftrightarrow> store_get image.id' (image.id' r) ?L = Some r"
      using store_get_Some_iff [OF wfL, of "image.id' r" r] by simp
    also have "\<dots> \<longleftrightarrow> lastWithKey image.id' (image.id' r) ?rs = Some r"
      by (simp add: store_get_fold_put split: option.splits)
    also have "\<dots> \<longleftrightarrow> r \<in> set ?rs"
      using lastWithKey_Some_iff [OF u, of "image.id' r" r] by simp
    finally show "r \<in> set ?L \<longleftrightarrow> r \<in> set ?R" unfolding S .
  qed
qed

text \<open>
  The store of images after the import of the exported document, for every id.
\<close>

lemma importAll_exportAll_images:
  assumes "db_wf (db s)"
  shows "novelCompanionDB.images (db (snd (importAll (fst (exportAll now s)) Overwrite t))) =
      filter (\<lambda>im. image.id' im \<in>
                     set (collectImageIds (novelCompanionDB.novels (db s))
                            (novelCompanionDB.characters (db s))
                            (novelCompanionDB.places (db s))) \<and>
                   image.data im \<noteq> [] \<and> image.id' im \<noteq> ''__proto__'')
        (novelCompanionDB.images (db s))"
proof -
  let ?ids = "collectImageIds (novelCompanionDB.novels (db s))
                (novelCompanionDB.characters (db s)) (novelCompanionDB.places (db s))"
  let ?doc = "fst (exportAll now s)"
  have v: "exportData.images ?doc = Some (assignAll (List.map_filter (imageEntry (db s)) ?ids) [])"
    "exportData.novels ?doc = Some (novelCompanionDB.novels (db s))"
    "exportData.characters ?doc = Some (novelCompanionDB.characters (db s))"
    "exportData.places ?doc = Some (novelCompanionDB.places (db s))"
    "exportData.notes ?doc = Some (novelCompanionDB.notes (db s))"
    by (simp_all add: exportAll_doc)
  have wf: "store_wf image.id' (novelCompanionDB.images (db s))"
    using assms by (simp add: db_wf_def)
  note I = importAll_valid [OF v, of Overwrite t]
  show ?thesis
    unfolding I by (simp add: putAll_def emptyDB_def import_exported_images [OF wf])
qed

text \<open>
  Claim C1, as the code has it. For a well-formed database, importing the exported
  document in overwrite mode (into any connection, a fresh one included) completes
  and gives stores of novels, characters, places and notes equal to those exported,
  and a store of images that, the id \<^verbatim>\<open>__proto__\<close> apart, holds exactly the images of
  the original store whose id the export collected (from the \<^verbatim>\<open>images\<close> lists of
  characters and places and the non-empty covers of novels) and whose data is not
  empty.
\<close>

theorem export_import_roundtrip:
  assumes "db_wf (db s)"
  shows "fst (importAll (fst (exportAll now s)) Overwrite t) = Inr () \<and>
    novelCompanionDB.novels (db (snd (importAll (fst (exportAll now s)) Overwrite t))) =
      novelCompanionDB.novels (db s) \<and>
    novelCompanionDB.characters (db (snd (importAll (fst (exportAll now s)) Overwrite t))) =
      novelCompanionDB.characters (db s) \<and>
    novelCompanionDB.places (db (snd (importAll (fst (exportAll now s)) Overwrite t))) =
      novelCompanionDB.places (db s) \<and>
    novelCompanionDB.notes (db (snd (importAll (fst (exportAll now s)) Overwrite t))) =
      novelCompanionDB.notes (db s) \<and>
    filter (\<lambda>im. image.id' im \<noteq> ''__proto__'')
      (novelCompanionDB.images (db (snd (importAll (fst (exportAll now s)) Overwrite t)))) =
      filter (\<lambda>im. image.id' im \<in>
                     set (collectImageIds (novelCompanionDB.novels (db s))
                            (novelCompanionDB.characters (db s))
                            (novelCompanionDB.places (db s))) \<and>
                   image.data im \<noteq> [] \<and> image.id' im \<noteq> ''__proto__'')
        (novelCompanionDB.images (db s)) \<and>
    set (collectImageIds (novelCompanionDB.novels (db s)) (novelCompanionDB.characters (db s))
           (novelCompanionDB.places (db s))) =
      set (concat (map character.images (novelCompanionDB.characters (db s)))) \<union>
      set (concat (map place.images (novelCompanionDB.places (db s)))) \<union>
      {x \<in> set (List.map_filter novel.coverImage (novelCompanionDB.novels (db s))). x \<noteq> []}"
proof -
  let ?ids = "collectImageIds (novelCompanionDB.novels (db s))
                (novelCompanionDB.characters (db s)) (novelCompanionDB.places (db s))"
  let ?doc = "fst (exportAll now s)"
  have v: "exportData.images ?doc = Some (assignAll (List.map_filter (imageEntry (db s)) ?ids) [])"
    "exportData.novels ?doc = Some (novelCompanionDB.novels (db s))"
    "exportData.characters ?doc = Some (novelCompanionDB.characters (db s))"
    "exportData.places ?doc = Some (novelCompanionDB.places (db s))"
    "exportData.notes ?doc = Some (novelCompanionDB.notes (db s))"
    by (simp_all add: exportAll_doc)
  have wf: "store_wf novel.id' (novelCompanionDB.novels (db s))"
    "store_wf character.id' (novelCompanionDB.characters (db s))"
    "store_wf place.id' (novelCompanionDB.places (db s))"
    "store_wf note.id' (novelCompanionDB.notes (db s))"
    using assms by (simp_all add: db_wf_def)
  have p: "fold (store_put novel.id') (novelCompanionDB.novels (db s)) [] =
             novelCompanionDB.novels (db s)"
    "fold (store_put character.id') (novelCompanionDB.characters (db s)) [] =
             novelCompanionDB.characters (db s)"
    "fold (store_put place.id') (novelCompanionDB.places (db s)) [] =
             novelCompanionDB.places (db s)"
    "fold (store_put note.id') (novelCompanionDB.notes (db s)) [] =
             novelCompanionDB.notes (db s)"
    using wf fold_store_put_wf [of novel.id' "[]"] fold_store_put_wf [of character.id' "[]"]
      fold_store_put_wf [of place.id' "[]"] fold_store_put_wf [of note.id' "[]"]
    by simp_all
  note I = importAll_valid [OF v, of Overwrite t]
  have c: "set ?ids =
      set (concat (map character.images (novelCompanionDB.characters (db s)))) \<union>
      set (concat (map place.images (novelCompanionDB.places (db s)))) \<union>
      {x \<in> set (List.map_filter novel.coverImage (novelCompanionDB.novels (db s))). x \<noteq> []}"
    by (rule set_collectImageIds)
  let ?d = "putAll (assignAll (List.map_filter (imageEntry (db s)) ?ids) [])
          (novelCompanionDB.novels (db s)) (novelCompanionDB.characters (db s))
          (novelCompanionDB.places (db s)) (novelCompanionDB.notes (db s)) emptyDB"
  have o: "novelCompanionDB.novels ?d = novelCompanionDB.novels (db s)"
    "novelCompanionDB.characters ?d = novelCompanionDB.characters (db s)"
    "novelCompanionDB.places ?d = novelCompanionDB.places (db s)"
    "novelCompanionDB.notes ?d = novelCompanionDB.notes (db s)"
    by (simp_all add: putAll_def emptyDB_def p)
  have r: "fst (importAll ?doc Overwrite t) = Inr ()"
    "novelCompanionDB.novels (db (snd (importAll ?doc Overwrite t))) =
       novelCompanionDB.novels (db s)"
    "novelCompanionDB.characters (db (snd (importAll ?doc Overwrite t))) =
       novelCompanionDB.characters (db s)"
    "novelCompanionDB.places (db (snd (importAll ?doc Overwrite t))) =
       novelCompanionDB.places (db s)"
    "novelCompanionDB.notes (db (snd (importAll ?doc Overwrite t))) =
       novelCompanionDB.notes (db s)"
    unfolding I using o by simp_all
  have i: "filter (\<lambda>im. image.id' im \<noteq> ''__proto__'')
      (novelCompanionDB.images (db (snd (importAll ?doc Overwrite t)))) =
      filter (\<lambda>im. image.id' im \<in> set ?ids \<and> image.data im \<noteq> [] \<and>
                   image.id' im \<noteq> ''__proto__'')
        (novelCompanionDB.images (db s))"
    unfolding importAll_exportAll_images [OF assms]
    by (simp add: conj_commute cong: conj_cong)
  from r i c show ?thesis by (intro conjI)
qed

theorem export_import_roundtrip_witness:
  "db_wf (db library) \<and>
   fst (importAll (fst (exportAll 100 library)) Overwrite freshConn) = Inr () \<and>
   novelCompanionDB.novels (db (snd (importAll (fst (exportAll 100 library)) Overwrite freshConn))) =
     [dune, emma] \<and>
   novelCompanionDB.characters
     (db (snd (importAll (fst (exportAll 100 library)) Overwrite freshConn))) =
     [paul, leto, harriet] \<and>
   novelCompanionDB.places (db (snd (importAll (fst (exportAll 100 library)) Overwrite freshConn))) =
     [arrakis] \<and>
   novelCompanionDB.notes (db (snd (importAll (fst (exportAll 100 library)) Overwrite freshConn))) =
     [memo] \<and>
   filter (\<lambda>im. image.id' im \<noteq> ''__proto__'')
     (novelCompanionDB.images
        (db (snd (importAll (fst (exportAll 100 library)) Overwrite freshConn)))) =
     [\<lparr>image.id' = ''i1'', data = ''AAAA''\<rparr>, \<lparr>image.id' = ''i2'', data = ''BBBB''\<rparr>,
      \<lparr>image.id' = ''i3'', data = ''CCCC''\<rparr>]"
proof -
  have l: "novelCompanionDB.novels (db library) = [dune, emma]"
    "novelCompanionDB.characters (db library) = [paul, leto, harriet]"
    "novelCompanionDB.places (db library) = [arrakis]"
    "novelCompanionDB.notes (db library) = [memo]"
    "novelCompanionDB.images (db library) =
       [\<lparr>image.id' = ''i1'', data = ''AAAA''\<rparr>, \<lparr>image.id' = ''i2'', data = ''BBBB''\<rparr>,
        \<lparr>image.id' = ''i3'', data = ''CCCC''\<rparr>, \<lparr>image.id' = ''i4'', data = []\<rparr>,
        \<lparr>image.id' = ''i5'', data = ''EEEE''\<rparr>]"
    by (simp_all add: library_def)
  show ?thesis
    using library_wf export_import_roundtrip [OF library_wf, of 100 freshConn]
    unfolding library_collected
    by (simp add: l)
qed

text \<open>
  Claim C1 as stated fails for an image the export reads but does not write: Paul's
  image \<open>i4\<close> is in the original store, with empty data, and the export reads it
  (the log has the read), yet after the import the store has no image \<open>i4\<close>.
\<close>

theorem roundtrip_images_counterexample:
  "store_get image.id' ''i4'' (novelCompanionDB.images (db library)) =
     Some \<lparr>image.id' = ''i4'', data = []\<rparr> \<and>
   ''i4'' \<in> set (character.images paul) \<and>
   exportData.characters (fst (exportAll 100 library)) = Some [paul, leto, harriet] \<and>
   \<lparr>tx_stores = [Images], tx_mode = Readonly, tx_requests = [Get Images ''i4'']\<rparr>
     \<in> set (txlog (snd (exportAll 100 library))) \<and>
   store_get image.id' ''i4''
     (novelCompanionDB.images
        (db (snd (importAll (fst (exportAll 100 library)) Overwrite freshConn)))) = None"
  by (simp add: exportAll_def db_getAll_novels_def db_getAll_characters_def db_getAll_places_def
      db_getAll_notes_def collectImageIds_def setAdd_def imageDB_get_def db_get_image_def
      db_read_def db_write_def transact_def importAll_def store_get_def freshConn_def emptyDB_def
      library_defs Let_def objectSet_def)

section \<open>Well-formed databases\<close>

text \<open>
  The well-formedness that some of the properties above assume is an invariant: the
  empty database that \<^verbatim>\<open>getDB\<close> creates is well-formed, every request keeps a
  well-formed database well-formed, and so does every operation of the repositories
  and of the backup codec.
\<close>

lemma db_wf_emptyDB: "db_wf emptyDB"
  by (simp add: db_wf_def emptyDB_def)

lemma db_wf_perform: "db_wf d \<Longrightarrow> db_wf (perform rq d)"
proof (cases rq)
  case (Delete sn k)
  assume "db_wf d"
  then show ?thesis unfolding Delete
    by (cases sn) (simp_all add: db_wf_def store_wf_delete)
next
  case (Clear sn)
  assume "db_wf d"
  then show ?thesis unfolding Clear
    by (cases sn) (simp_all add: db_wf_def)
qed (simp_all add: db_wf_def store_wf_put)

lemma db_wf_fold_perform: "db_wf d \<Longrightarrow> db_wf (fold perform reqs d)"
  by (induction reqs arbitrary: d) (simp_all add: db_wf_perform)

lemma db_wf_transact: "db_wf (db s) \<Longrightarrow> db_wf (db (transact sns m reqs s))"
  by (cases m) (simp_all add: db_wf_fold_perform)

lemma db_wf_db_write: "db_wf (db s) \<Longrightarrow> db_wf (db (db_write rq s))"
  by (simp add: db_wf_perform)

lemma db_wf_removeReferences:
  "db_wf (db s) \<Longrightarrow> db_wf (db (removeReferences i dn n cs s))"
  by (induction i dn n cs s rule: removeReferences.induct)
    (simp_all add: db_wf_perform del: perform.simps)

lemma db_wf_novelDB_delete: "db_wf (db s) \<Longrightarrow> db_wf (db (novelDB_delete i s))"
  by (simp add: novelDB_delete_db db_wf_fold_perform)

lemma db_wf_characterDB_delete: "db_wf (db s) \<Longrightarrow> db_wf (db (characterDB_delete i dn s))"
  by (simp add: characterDB_delete_def db_get_character_def db_characters_by_novel_def Let_def
      db_wf_removeReferences db_wf_fold_perform del: fold_append split: option.splits)

lemma db_wf_other_deletes:
  "db_wf (db s) \<Longrightarrow> db_wf (db (placeDB_delete i s))"
  "db_wf (db s) \<Longrightarrow> db_wf (db (noteDB_delete i s))"
  "db_wf (db s) \<Longrightarrow> db_wf (db (imageDB_delete i s))"
  "db_wf (db s) \<Longrightarrow> db_wf (db (snd (imageDB_save dat g s)))"
  by (simp_all add: placeDB_delete_def noteDB_delete_def imageDB_delete_def imageDB_save_def
      db_get_place_def Let_def db_wf_perform db_wf_fold_perform
      del: perform.simps fold_append split: option.splits)

lemma db_exportAll: "db (snd (exportAll now s)) = db s"
  by (simp add: exportAll_def db_getAll_novels_def db_getAll_characters_def db_getAll_places_def
      db_getAll_notes_def Let_def split_beta fetchImages_eq)

lemma db_wf_fold_db_write:
  "db_wf (db s) \<Longrightarrow> db_wf (db (fold (\<lambda>x. db_write (f x)) xs s))"
  by (induction xs arbitrary: s) (simp_all add: db_wf_perform del: perform.simps)

lemma db_wf_importAll: "db_wf (db s) \<Longrightarrow> db_wf (db (snd (importAll dat mode s)))"
proof -
  assume wf: "db_wf (db s)"
  have img: "db_wf (db (fold (\<lambda>(i, dataStr).
      db_write (PutImage \<lparr>image.id' = i, data = dataStr\<rparr>)) xs u))" if "db_wf (db u)" for xs u
    using that
    by (induction xs arbitrary: u) (simp_all add: db_wf_perform del: perform.simps split: prod.splits)
  show ?thesis
    using wf
    by (simp add: importAll_def Let_def img db_wf_fold_db_write db_wf_perform
        del: perform.simps split: option.splits)
qed

lemma db_wf_create_update:
  "db_wf (db s) \<Longrightarrow> db_wf (db (snd (novelDB_create nv g now s)))"
  "db_wf (db s) \<Longrightarrow> db_wf (db (snd (characterDB_create ch g now s)))"
  "db_wf (db s) \<Longrightarrow> db_wf (db (snd (placeDB_create pl g now s)))"
  "db_wf (db s) \<Longrightarrow> db_wf (db (snd (noteDB_create nt g now s)))"
  "db_wf (db s) \<Longrightarrow> db_wf (db (snd (novelDB_update i d1 now s)))"
  "db_wf (db s) \<Longrightarrow> db_wf (db (snd (characterDB_update i d2 now s)))"
  "db_wf (db s) \<Longrightarrow> db_wf (db (snd (placeDB_update i d3 now s)))"
  "db_wf (db s) \<Longrightarrow> db_wf (db (snd (noteDB_update i d4 now s)))"
  by (simp_all add: novelDB_create_def characterDB_create_def placeDB_create_def
      noteDB_create_def novelDB_update_def characterDB_update_def placeDB_update_def
      noteDB_update_def db_get_novel_def db_get_character_def db_get_place_def db_get_note_def
      Let_def db_wf_perform del: perform.simps split: option.splits)

end
